theory Spec2Isabelle
  imports Complex_Main
begin

section \<open>JavaScript numbers\<close>

text \<open>
  Troop counts, indices and counters are integers well inside the range in which a
  binary64 number is exact, and are modelled by \<open>int\<close> and \<open>nat\<close>. The combat and scoring
  code multiplies them by decimal literals (\<open>0.7\<close>, \<open>0.6\<close>, \<open>0.5\<close>, \<open>0.3\<close>, \<open>0.8\<close>,
  \<open>0.4\<close>), which are not binary fractions, and applies \<open>Math.floor\<close> to the rounded
  product; the rounding is visible there (\<open>90 * 0.7\<close> is \<open>62.99999999999999\<close>), so it is
  modelled: \<open>fl\<close> rounds a rational to the nearest number with a 53-bit significand, ties
  to even. Overflow to \<open>Infinity\<close> and subnormal numbers are outside the model.
\<close>

definition pow2 :: "int \<Rightarrow> rat" where
  "pow2 k = (if 0 \<le> k then 2 ^ nat k else 1 / 2 ^ nat (- k))"

function ilog2 :: "int \<Rightarrow> int" where
  "ilog2 n = (if n \<le> 1 then 0 else 1 + ilog2 (n div 2))"
  by pat_completeness auto
termination
  by (relation "measure nat") auto

declare ilog2.simps [simp del]

text \<open>The binary exponent \<open>e\<close> of a positive rational: \<open>2^e \<le> x < 2^(e+1)\<close>.\<close>

definition expo :: "rat \<Rightarrow> int" where
  "expo x = (if 1 \<le> x then ilog2 \<lfloor>x\<rfloor> else - (ilog2 (\<lceil>1 / x\<rceil> - 1) + 1))"

definition round_half_even :: "rat \<Rightarrow> int" where
  "round_half_even q =
     (let f = \<lfloor>q\<rfloor>; d = q - of_int f
      in if d < 1 / 2 then f
         else if 1 / 2 < d then f + 1
         else if even f then f else f + 1)"

definition fl :: "rat \<Rightarrow> rat" where
  "fl x = (if x = 0 then 0
           else let u = pow2 (expo \<bar>x\<bar> - 52)
                in of_int (round_half_even (x / u)) * u)"

text \<open>The arithmetic operators of the source, each rounding its exact result once.\<close>

definition js_mul :: "rat \<Rightarrow> rat \<Rightarrow> rat" where
  "js_mul a b = fl (a * b)"

definition js_add :: "rat \<Rightarrow> rat \<Rightarrow> rat" where
  "js_add a b = fl (a + b)"

definition js_sub :: "rat \<Rightarrow> rat \<Rightarrow> rat" where
  "js_sub a b = fl (a - b)"

text \<open>A decimal literal of the source denotes the nearest binary64 number.\<close>

definition lit :: "rat \<Rightarrow> rat" where
  "lit q = fl q"

section \<open>Data model\<close>

datatype js_error = TypeError

record point =
  px :: real
  py :: real

text \<open>\<open>Territory\<close>: \<open>owner\<close> is \<open>None\<close> for the source's \<open>null\<close> (neutral).\<close>

record territory =
  tid :: int
  vertices :: "point list"
  center :: point
  owner :: "string option"
  troops :: int
  neighbors :: "int list"

record player =
  pid :: string
  pname :: string
  color :: string
  isAI :: bool
  isAlive :: bool
  territoriesOwned :: nat
  totalTroops :: int

text \<open>
  \<open>winner\<close> holds \<open>null\<close> or a reference to a player object. \<open>checkWinCondition\<close> stores
  an element of the \<open>players\<close> array, whose fields later calls of \<open>updatePlayerStats\<close>
  write in place: that reference is the index \<open>RosterEntry i\<close>. \<open>Detached p\<close> is a
  reference to an object that is not in the array.
\<close>

datatype winner_ref = RosterEntry nat | Detached player

record game_state =
  territories :: "territory list"
  players :: "player list"
  currentTurn :: nat
  turnTimeLimit :: int
  turnStartTime :: int
  gamePhase :: string
  winner :: "winner_ref option"
  mapWidth :: real
  mapHeight :: real
  territoryCount :: nat
  troopGenerationRate :: int

text \<open>The result object of \<open>processAttack\<close>: the failure carries only \<open>error\<close>.\<close>

datatype attack_result =
  Failure string
| Success (r_conquered: bool) (r_attackerLosses: int) (r_defenderLosses: int)
    (r_fromId: int) (r_toId: int)

fun success :: "attack_result \<Rightarrow> bool" where
  "success (Failure e) = False"
| "success (Success c a d f t) = True"

section \<open>Territory\<close>

definition isAdjacentTo :: "territory \<Rightarrow> int \<Rightarrow> bool" where
  "isAdjacentTo t territoryId = (territoryId \<in> set (neighbors t))"

definition addNeighbor :: "territory \<Rightarrow> int \<Rightarrow> territory" where
  "addNeighbor t territoryId =
     (if territoryId \<in> set (neighbors t) then t
      else t\<lparr>neighbors := neighbors t @ [territoryId]\<rparr>)"

text \<open>\<open>this.territories[i]\<close>: \<open>undefined\<close> (here \<open>None\<close>) unless \<open>i\<close> is an index of the array.\<close>

definition territory_at :: "territory list \<Rightarrow> int \<Rightarrow> territory option" where
  "territory_at ts i = (if 0 \<le> i \<and> i < int (length ts) then Some (ts ! nat i) else None)"

section \<open>GameState\<close>

definition getCurrentPlayer :: "game_state \<Rightarrow> player option" where
  "getCurrentPlayer s =
     (if players s = [] then None
      else Some (players s ! (currentTurn s mod length (players s))))"

definition ownedBy :: "string \<Rightarrow> territory list \<Rightarrow> territory list" where
  "ownedBy p ts = filter (\<lambda>t. owner t = Some p) ts"

definition updatePlayerStats :: "game_state \<Rightarrow> game_state" where
  "updatePlayerStats s =
     s\<lparr>players :=
         map (\<lambda>p. p\<lparr>territoriesOwned := length (ownedBy (pid p) (territories s)),
                       totalTroops := sum_list (map troops (ownedBy (pid p) (territories s))),
                       isAlive := (0 < length (ownedBy (pid p) (territories s)))\<rparr>)
             (players s)\<rparr>"

text \<open>\<open>alivePlayers\<close> is the list of the indices of the players that pass the filter.\<close>

definition checkWinCondition :: "game_state \<Rightarrow> game_state" where
  "checkWinCondition s =
     (let alivePlayers = filter (\<lambda>i. isAlive (players s ! i)) [0..<length (players s)]
      in if length alivePlayers = 1
         then s\<lparr>gamePhase := ''ended'', winner := Some (RosterEntry (alivePlayers ! 0))\<rparr>
         else if length alivePlayers = 0
         then s\<lparr>gamePhase := ''ended'', winner := None\<rparr>
         else s)"

text \<open>The player object that \<open>winner\<close> refers to.\<close>

definition winnerPlayer :: "game_state \<Rightarrow> player option" where
  "winnerPlayer s =
     (case winner s of
        None \<Rightarrow> None
      | Some (RosterEntry i) \<Rightarrow> Some (players s ! i)
      | Some (Detached p) \<Rightarrow> Some p)"

definition validateAttack :: "territory option \<Rightarrow> territory option \<Rightarrow> string \<Rightarrow> bool" where
  "validateAttack from to playerId =
     (case from of None \<Rightarrow> False | Some f \<Rightarrow>
      (case to of None \<Rightarrow> False | Some t \<Rightarrow>
         if owner f \<noteq> Some playerId then False
         else if owner t = Some playerId then False
         else if troops f \<le> 1 then False
         else if \<not> isAdjacentTo f (tid t) then False
         else True))"

text \<open>The factor \<open>(0.8 + Math.random() * 0.4)\<close>, for the draw \<open>r\<close> of \<open>Math.random()\<close>.\<close>

definition rollFactor :: "rat \<Rightarrow> rat" where
  "rollFactor r = js_add (lit (8 / 10)) (js_mul r (lit (4 / 10)))"

text \<open>
  \<open>processAttack\<close> takes the two values \<open>r1\<close>, \<open>r2\<close> that \<open>Math.random()\<close> returns for the
  attack roll and for the defense roll, and returns the result object with the state
  after the call. \<open>from\<close> and \<open>to\<close> are objects of the array: the writes to them are
  updates of the list at \<open>fromId\<close> and \<open>toId\<close>, the second reading what the first left.
\<close>

definition processAttack ::
  "game_state \<Rightarrow> int \<Rightarrow> int \<Rightarrow> string \<Rightarrow> rat \<Rightarrow> rat \<Rightarrow> attack_result \<times> game_state" where
  "processAttack s fromId toId playerId r1 r2 =
     (case territory_at (territories s) fromId of
        None \<Rightarrow> (Failure ''Invalid attack'', s)
      | Some from \<Rightarrow>
     (case territory_at (territories s) toId of
        None \<Rightarrow> (Failure ''Invalid attack'', s)
      | Some to \<Rightarrow>
        if \<not> validateAttack (Some from) (Some to) playerId
        then (Failure ''Invalid attack'', s)
        else
          let attackPower = troops from - 1;
              defensePower = troops to;
              attackRoll = js_mul (of_int attackPower) (rollFactor r1);
              defenseRoll = js_mul (of_int defensePower) (rollFactor r2);
              i = nat fromId;
              j = nat toId
          in if attackRoll > defenseRoll
             then
               let troopsToMove = \<lfloor>js_mul (of_int (troops from)) (lit (7 / 10))\<rfloor>;
                   survivingTroops = max 1 \<lfloor>js_mul (of_int troopsToMove) (lit (6 / 10))\<rfloor>;
                   ts1 = (territories s)[i := from\<lparr>troops := troops from - troopsToMove\<rparr>];
                   ts2 = ts1[j := (ts1 ! j)\<lparr>owner := owner (ts1 ! i), troops := survivingTroops\<rparr>]
               in (Success True (troopsToMove - survivingTroops) defensePower fromId toId,
                   checkWinCondition (updatePlayerStats (s\<lparr>territories := ts2\<rparr>)))
             else
               let attackerLosses = \<lfloor>js_mul (of_int attackPower) (lit (5 / 10))\<rfloor>;
                   defenderLosses = \<lfloor>js_mul (of_int defensePower) (lit (3 / 10))\<rfloor>;
                   ts1 = (territories s)[i := from\<lparr>troops := troops from - attackerLosses\<rparr>];
                   ts2 = ts1[j := (ts1 ! j)\<lparr>troops := max 1 (troops (ts1 ! j) - defenderLosses)\<rparr>]
               in (Success False attackerLosses defenderLosses fromId toId,
                   checkWinCondition (updatePlayerStats (s\<lparr>territories := ts2\<rparr>)))))"

definition generateTroops :: "game_state \<Rightarrow> game_state" where
  "generateTroops s =
     s\<lparr>territories :=
         map (\<lambda>t. if owner t \<noteq> None then t\<lparr>troops := troops t + troopGenerationRate s\<rparr> else t)
             (territories s)\<rparr>"

text \<open>
  The loop of \<open>nextTurn\<close> that passes over dead players. Its test reads
  \<open>getCurrentPlayer().isAlive\<close> first, which throws on an empty roster.
\<close>

function skipDead :: "game_state \<Rightarrow> nat \<Rightarrow> js_error + game_state" where
  "skipDead s attempts =
     (case getCurrentPlayer s of
        None \<Rightarrow> Inl TypeError
      | Some p \<Rightarrow>
          if \<not> isAlive p \<and> attempts < length (players s)
          then skipDead (s\<lparr>currentTurn := currentTurn s + 1\<rparr>) (attempts + 1)
          else Inr s)"
  by pat_completeness auto
termination
  by (relation "measure (\<lambda>(s, a). length (players s) - a)") auto

declare skipDead.simps [simp del]

definition nextTurn :: "game_state \<Rightarrow> int \<Rightarrow> js_error + game_state" where
  "nextTurn s now =
     (case skipDead (generateTroops (s\<lparr>currentTurn := currentTurn s + 1, turnStartTime := now\<rparr>)) 0 of
        Inl e \<Rightarrow> Inl e
      | Inr s' \<Rightarrow> Inr (updatePlayerStats s'))"

subsection \<open>Serialization\<close>

text \<open>
  The snapshot object has no \<open>territoryCount\<close> and no \<open>troopGenerationRate\<close>; a
  serialized territory is a plain object with the six fields of \<open>Territory\<close>. The snapshot
  holds the \<open>players\<close> array and the \<open>winner\<close> reference themselves, not copies.
\<close>

record territory_data =
  d_id :: int
  d_vertices :: "point list"
  d_center :: point
  d_owner :: "string option"
  d_troops :: int
  d_neighbors :: "int list"

record snapshot =
  s_territories :: "territory_data list"
  s_players :: "player list"
  s_currentTurn :: nat
  s_turnTimeLimit :: int
  s_turnStartTime :: int
  s_gamePhase :: string
  s_winner :: "winner_ref option"
  s_mapWidth :: real
  s_mapHeight :: real

text \<open>The constructor \<open>new Territory(id, vertices, center)\<close>.\<close>

definition new_Territory :: "int \<Rightarrow> point list \<Rightarrow> point \<Rightarrow> territory" where
  "new_Territory i vs c =
     \<lparr>tid = i, vertices = vs, center = c, owner = None, troops = 10, neighbors = []\<rparr>"

definition territory_serialize :: "territory \<Rightarrow> territory_data" where
  "territory_serialize t =
     \<lparr>d_id = tid t, d_vertices = vertices t, d_center = center t, d_owner = owner t,
      d_troops = troops t, d_neighbors = neighbors t\<rparr>"

definition territory_deserialize :: "territory_data \<Rightarrow> territory" where
  "territory_deserialize d =
     (new_Territory (d_id d) (d_vertices d) (d_center d))
       \<lparr>owner := d_owner d, troops := d_troops d, neighbors := d_neighbors d\<rparr>"

text \<open>
  The constructor \<open>new GameState(config)\<close>: an option of the configuration that is absent
  or zero takes its default (\<open>config.x || default\<close>); \<open>now\<close> is the value of \<open>Date.now()\<close>.
\<close>

record config =
  c_turnTimeLimit :: "int option"
  c_mapWidth :: "real option"
  c_mapHeight :: "real option"
  c_territoryCount :: "nat option"
  c_troopGenerationRate :: "int option"

definition or_default :: "'a::zero option \<Rightarrow> 'a \<Rightarrow> 'a" where
  "or_default v d = (case v of None \<Rightarrow> d | Some a \<Rightarrow> if a = 0 then d else a)"

definition no_config :: config where
  "no_config =
     \<lparr>c_turnTimeLimit = None, c_mapWidth = None, c_mapHeight = None,
      c_territoryCount = None, c_troopGenerationRate = None\<rparr>"

definition new_GameState :: "config \<Rightarrow> int \<Rightarrow> game_state" where
  "new_GameState cfg now =
     \<lparr>territories = [], players = [], currentTurn = 0,
      turnTimeLimit = or_default (c_turnTimeLimit cfg) 45000,
      turnStartTime = now, gamePhase = ''lobby'', winner = None,
      mapWidth = or_default (c_mapWidth cfg) 1200,
      mapHeight = or_default (c_mapHeight cfg) 800,
      territoryCount = or_default (c_territoryCount cfg) 60,
      troopGenerationRate = or_default (c_troopGenerationRate cfg) 1\<rparr>"

definition serialize :: "game_state \<Rightarrow> snapshot" where
  "serialize s =
     \<lparr>s_territories = map territory_serialize (territories s),
      s_players = players s,
      s_currentTurn = currentTurn s,
      s_turnTimeLimit = turnTimeLimit s,
      s_turnStartTime = turnStartTime s,
      s_gamePhase = gamePhase s,
      s_winner = winner s,
      s_mapWidth = mapWidth s,
      s_mapHeight = mapHeight s\<rparr>"

definition deserialize :: "snapshot \<Rightarrow> int \<Rightarrow> game_state" where
  "deserialize data now =
     (new_GameState no_config now)
       \<lparr>territories := map territory_deserialize (s_territories data),
        players := s_players data,
        currentTurn := s_currentTurn data,
        turnTimeLimit := s_turnTimeLimit data,
        turnStartTime := s_turnStartTime data,
        gamePhase := s_gamePhase data,
        winner := s_winner data,
        mapWidth := s_mapWidth data,
        mapHeight := s_mapHeight data\<rparr>"

subsection \<open>The caller of \<open>processAttack\<close>\<close>

text \<open>
  The server's handler of the \<open>attack\<close> message, for a room that exists: it compares the
  current player with the sender before it calls \<open>processAttack\<close>, and emits either an
  error message to the sender or the result to the room.
\<close>

datatype emitted = Error string | AttackResult attack_result

definition onAttack ::
  "game_state \<Rightarrow> string \<Rightarrow> int \<Rightarrow> int \<Rightarrow> rat \<Rightarrow> rat \<Rightarrow> js_error + emitted \<times> game_state" where
  "onAttack s socketId fromId toId r1 r2 =
     (case getCurrentPlayer s of
        None \<Rightarrow> Inl TypeError
      | Some currentPlayer \<Rightarrow>
          if pid currentPlayer \<noteq> socketId then Inr (Error ''Not your turn'', s)
          else
            (case processAttack s fromId toId socketId r1 r2 of
               (Failure e, s') \<Rightarrow> Inr (Error e, s')
             | (Success c a d f t, s') \<Rightarrow> Inr (AttackResult (Success c a d f t), s')))"

section \<open>AIBot\<close>

text \<open>
  A bot is its \<open>difficulty\<close> string. Reading a field of \<open>gameState.territories[nId]\<close> for
  an \<open>nId\<close> that is no index throws, so the functions that do return a sum.
\<close>

record attack_option =
  a_fromId :: int
  a_toId :: int
  score :: rat

datatype decision = Null | Undefined | Attack attack_option

definition getAggressiveness :: "string \<Rightarrow> rat" where
  "getAggressiveness difficulty =
     (if difficulty = ''easy'' then lit (3 / 10)
      else if difficulty = ''hard'' then lit (8 / 10)
      else lit (5 / 10))"

text \<open>\<open>from.neighbors.some(nId => territories[nId].owner !== playerId)\<close>, left to right.\<close>

fun someNotOwned :: "territory list \<Rightarrow> string \<Rightarrow> int list \<Rightarrow> js_error + bool" where
  "someNotOwned ts playerId [] = Inr False"
| "someNotOwned ts playerId (nId # ns) =
     (case territory_at ts nId of
        None \<Rightarrow> Inl TypeError
      | Some neighbor \<Rightarrow>
          if owner neighbor \<noteq> Some playerId then Inr True
          else someNotOwned ts playerId ns)"

text \<open>\<open>to.neighbors.filter(nId => territories[nId].owner === playerId).length\<close>.\<close>

fun countOwned :: "territory list \<Rightarrow> string \<Rightarrow> int list \<Rightarrow> js_error + nat" where
  "countOwned ts playerId [] = Inr 0"
| "countOwned ts playerId (nId # ns) =
     (case territory_at ts nId of
        None \<Rightarrow> Inl TypeError
      | Some neighbor \<Rightarrow>
          (case countOwned ts playerId ns of
             Inl e \<Rightarrow> Inl e
           | Inr n \<Rightarrow> Inr (if owner neighbor = Some playerId then Suc n else n)))"

text \<open>
  The score is a sum of integers up to the last factor, which multiplies it by
  \<open>1 - aggressiveness\<close>.
\<close>

definition evaluateAttack ::
  "string \<Rightarrow> territory \<Rightarrow> territory \<Rightarrow> game_state \<Rightarrow> string \<Rightarrow> js_error + rat" where
  "evaluateAttack difficulty from to gameState playerId =
     (let troopAdvantage = troops from - troops to;
          score1 = troopAdvantage * 10;
          score2 = (if owner to = None then score1 + 20 else score1);
          score3 = (case owner to of
                      None \<Rightarrow> score2
                    | Some w \<Rightarrow>
                        (case find (\<lambda>p. pid p = w) (players gameState) of
                           None \<Rightarrow> score2
                         | Some opponent \<Rightarrow> score2 + (10 - int (territoriesOwned opponent)) * 5));
          score4 = score3 + int (length (neighbors to)) * 3
      in (case someNotOwned (territories gameState) playerId (neighbors from) of
            Inl e \<Rightarrow> Inl e
          | Inr isBorder \<Rightarrow>
              (let score5 = (if isBorder \<and> troops from < 5 then score4 - 30 else score4)
               in (case countOwned (territories gameState) playerId (neighbors to) of
                     Inl e \<Rightarrow> Inl e
                   | Inr ownedNeighbors \<Rightarrow>
                       (let score6 = score5 + int ownedNeighbors * 8
                        in Inr (if troopAdvantage < 0
                                then js_mul (of_int score6)
                                       (js_sub 1 (getAggressiveness difficulty))
                                else of_int score6))))))"

text \<open>The inner loop of \<open>makeDecision\<close>, over the neighbors of one owned territory.\<close>

fun attacksFrom ::
  "string \<Rightarrow> game_state \<Rightarrow> string \<Rightarrow> territory \<Rightarrow> int list \<Rightarrow> js_error + attack_option list" where
  "attacksFrom difficulty gameState playerId territory [] = Inr []"
| "attacksFrom difficulty gameState playerId territory (neighborId # ns) =
     (case territory_at (territories gameState) neighborId of
        None \<Rightarrow> Inl TypeError
      | Some neighbor \<Rightarrow>
          if owner neighbor = Some playerId
          then attacksFrom difficulty gameState playerId territory ns
          else
            (case evaluateAttack difficulty territory neighbor gameState playerId of
               Inl e \<Rightarrow> Inl e
             | Inr sc \<Rightarrow>
                 (case attacksFrom difficulty gameState playerId territory ns of
                    Inl e \<Rightarrow> Inl e
                  | Inr rest \<Rightarrow>
                      Inr (\<lparr>a_fromId = tid territory, a_toId = tid neighbor, score = sc\<rparr> # rest))))"

text \<open>The outer loop, over the owned territories.\<close>

fun possibleAttacks ::
  "string \<Rightarrow> game_state \<Rightarrow> string \<Rightarrow> territory list \<Rightarrow> js_error + attack_option list" where
  "possibleAttacks difficulty gameState playerId [] = Inr []"
| "possibleAttacks difficulty gameState playerId (territory # rest) =
     (if troops territory \<le> 1 then possibleAttacks difficulty gameState playerId rest
      else
        (case attacksFrom difficulty gameState playerId territory (neighbors territory) of
           Inl e \<Rightarrow> Inl e
         | Inr here \<Rightarrow>
             (case possibleAttacks difficulty gameState playerId rest of
                Inl e \<Rightarrow> Inl e
              | Inr others \<Rightarrow> Inr (here @ others))))"

text \<open>\<open>xs[i]\<close> for a number \<open>i\<close>: \<open>undefined\<close> outside the array.\<close>

definition element :: "attack_option list \<Rightarrow> int \<Rightarrow> decision" where
  "element xs i = (if 0 \<le> i \<and> i < int (length xs) then Attack (xs ! nat i) else Undefined)"

text \<open>
  \<open>makeDecision\<close> takes the value \<open>r\<close> of its one call of \<open>Math.random()\<close>. The sort is
  stable and puts the higher score first.
\<close>

definition makeDecision :: "string \<Rightarrow> game_state \<Rightarrow> string \<Rightarrow> rat \<Rightarrow> js_error + decision" where
  "makeDecision difficulty gameState playerId r =
     (let ownedTerritories = filter (\<lambda>t. owner t = Some playerId) (territories gameState)
      in if length ownedTerritories = 0 then Inr Null
         else
           (case possibleAttacks difficulty gameState playerId ownedTerritories of
              Inl e \<Rightarrow> Inl e
            | Inr found \<Rightarrow>
                if length found = 0 then Inr Null
                else
                  let sorted = sort_key (\<lambda>a. - score a) found
                  in if difficulty = ''easy''
                     then
                       let topHalf = take (max 1 (length sorted div 2)) sorted
                       in Inr (element topHalf \<lfloor>js_mul r (of_nat (length topHalf))\<rfloor>)
                     else if difficulty = ''hard''
                     then
                       Inr (if r < lit (8 / 10) then element sorted 0
                            else element sorted (min 1 (int (length sorted) - 1)))
                     else
                       let topThird =
                             take (max 1 (nat \<lfloor>js_mul (of_nat (length sorted)) (lit (3 / 10))\<rfloor>))
                                  sorted
                       in Inr (element topThird \<lfloor>js_mul r (of_nat (length topThird))\<rfloor>)))"

section \<open>MapGenerator\<close>

text \<open>
  Coordinates and distances are reals: the rounding of the geometric computations is not
  modelled, and nothing proved below depends on the value of a coordinate. \<open>Infinity\<close> as
  the start of a search for a minimum is \<open>None\<close>. The source of randomness is a sequence
  \<open>rnd\<close>: the \<open>n\<close>-th call of \<open>Math.random()\<close> returns \<open>rnd n\<close>.
\<close>

definition below :: "real \<Rightarrow> real option \<Rightarrow> bool" where
  "below d bound = (case bound of None \<Rightarrow> True | Some b \<Rightarrow> d < b)"

definition distance :: "point \<Rightarrow> point \<Rightarrow> real" where
  "distance p1 p2 =
     (let dx = px p1 - px p2; dy = py p1 - py p2 in sqrt (dx * dx + dy * dy))"

text \<open>The test of \<open>generatePoints\<close> that a candidate is far enough from every point.\<close>

fun farEnough :: "point \<Rightarrow> real \<Rightarrow> point list \<Rightarrow> bool" where
  "farEnough point minDistance [] = True"
| "farEnough point minDistance (existing # rest) =
     (let dx = px point - px existing; dy = py point - py existing;
          dist = sqrt (dx * dx + dy * dy)
      in if dist < minDistance then False else farEnough point minDistance rest)"

text \<open>
  The loop \<open>while (points.length < count)\<close>; \<open>k\<close> counts its iterations. The source
  declares \<open>maxAttempts = 30\<close> and never reads it. A run of the loop that does not end has
  the value \<open>None\<close>.
\<close>

partial_function (option) generatePoints_loop ::
  "(nat \<Rightarrow> real) \<Rightarrow> nat \<Rightarrow> nat \<Rightarrow> real \<Rightarrow> real \<Rightarrow> real \<Rightarrow> point list \<Rightarrow> point list option" where
  "generatePoints_loop rnd k count width height minDistance points =
     (if length points < count
      then generatePoints_loop rnd (k + 1) count width height minDistance
             (if farEnough \<lparr>px = rnd (2 * k) * width, py = rnd (2 * k + 1) * height\<rparr>
                   minDistance points
                 \<or> length points = 0
              then points @ [\<lparr>px = rnd (2 * k) * width, py = rnd (2 * k + 1) * height\<rparr>]
              else points)
      else Some points)"

definition generatePoints :: "nat \<Rightarrow> real \<Rightarrow> real \<Rightarrow> (nat \<Rightarrow> real) \<Rightarrow> point list option" where
  "generatePoints count width height rnd =
     generatePoints_loop rnd 0 count width height
       (sqrt ((width * height) / real count) * (7 / 10)) []"

text \<open>The scan for the seed closest to a cell; \<open>i\<close> is the index of the head of the list.\<close>

fun nearest :: "real \<Rightarrow> real \<Rightarrow> point list \<Rightarrow> nat \<Rightarrow> nat \<Rightarrow> real option \<Rightarrow> nat" where
  "nearest cellX cellY [] i closestIdx closestDist = closestIdx"
| "nearest cellX cellY (p # ps) i closestIdx closestDist =
     (let dx = cellX - px p; dy = cellY - py p; dist = dx * dx + dy * dy
      in if below dist closestDist
         then nearest cellX cellY ps (i + 1) i (Some dist)
         else nearest cellX cellY ps (i + 1) closestIdx closestDist)"

definition crossProduct :: "point \<Rightarrow> point \<Rightarrow> point \<Rightarrow> real" where
  "crossProduct p0 a b = (px a - px p0) * (py b - py p0) - (py a - py p0) * (px b - px p0)"

definition atan2 :: "real \<Rightarrow> real \<Rightarrow> real" where
  "atan2 v u =
     (if 0 < u then arctan (v / u)
      else if u < 0 then (if 0 \<le> v then arctan (v / u) + pi else arctan (v / u) - pi)
      else if 0 < v then pi / 2
      else if v < 0 then - (pi / 2)
      else 0)"

text \<open>The inner \<open>while\<close> of the hull construction: pop while the turn is not a left turn.\<close>

function popHull :: "point list \<Rightarrow> point \<Rightarrow> point list" where
  "popHull hullPts p =
     (if length hullPts > 1
         \<and> crossProduct (hullPts ! (length hullPts - 2)) (hullPts ! (length hullPts - 1)) p \<le> 0
      then popHull (butlast hullPts) p
      else hullPts)"
  by pat_completeness auto
termination
  by (relation "measure (\<lambda>(hullPts, p). length hullPts)") auto

declare popHull.simps [simp del]

definition convexHull :: "point list \<Rightarrow> point list" where
  "convexHull points =
     (if length points < 3 then points
      else
        let start =
              fold (\<lambda>i start.
                      if py (points ! i) < py (points ! start)
                         \<or> (py (points ! i) = py (points ! start)
                             \<and> px (points ! i) < px (points ! start))
                      then i else start)
                   [1..<length points] 0;
            startPoint = points ! start;
            sorted =
              sort_key (\<lambda>a. atan2 (py a - py startPoint) (px a - px startPoint))
                (map (\<lambda>i. points ! i) (filter (\<lambda>i. i \<noteq> start) [0..<length points]))
        in fold (\<lambda>i hullPts. popHull hullPts (sorted ! i) @ [sorted ! i])
                [1..<length sorted] [startPoint, sorted ! 0])"

definition isEdge :: "nat list list \<Rightarrow> nat \<Rightarrow> nat \<Rightarrow> nat \<Rightarrow> nat \<Rightarrow> nat \<Rightarrow> bool" where
  "isEdge grid territoryId cols rows u v =
     (u = 0 \<or> u = cols - 1 \<or> v = 0 \<or> v = rows - 1
      \<or> grid ! (v - 1) ! u \<noteq> territoryId
      \<or> grid ! (v + 1) ! u \<noteq> territoryId
      \<or> grid ! v ! (u - 1) \<noteq> territoryId
      \<or> grid ! v ! (u + 1) \<noteq> territoryId)"

definition extractBoundary :: "nat list list \<Rightarrow> nat \<Rightarrow> real \<Rightarrow> nat \<Rightarrow> nat \<Rightarrow> point list" where
  "extractBoundary grid territoryId gridSize cols rows =
     (let vs =
            concat (map (\<lambda>v.
              concat (map (\<lambda>u.
                if grid ! v ! u = territoryId \<and> isEdge grid territoryId cols rows u v
                then [\<lparr>px = real u * gridSize, py = real v * gridSize\<rparr>]
                else [])
              [0..<cols]))
            [0..<rows])
      in if length vs > 8 then convexHull vs
         else if length vs > 0 then vs
         else [\<lparr>px = 0, py = 0\<rparr>, \<lparr>px = gridSize, py = 0\<rparr>,
               \<lparr>px = gridSize, py = gridSize\<rparr>, \<lparr>px = 0, py = gridSize\<rparr>])"

definition createTerritories :: "point list \<Rightarrow> real \<Rightarrow> real \<Rightarrow> territory list" where
  "createTerritories points width height =
     (let gridSize = 10;
          cols = nat \<lceil>width / gridSize\<rceil>;
          rows = nat \<lceil>height / gridSize\<rceil>;
          grid =
            map (\<lambda>v. map (\<lambda>u.
                   nearest (real u * gridSize + gridSize / 2) (real v * gridSize + gridSize / 2)
                           points 0 0 None)
                 [0..<cols])
              [0..<rows]
      in map (\<lambda>i. new_Territory (int i) (extractBoundary grid i gridSize cols rows) (points ! i))
             [0..<length points])"

text \<open>The body of the first double loop of \<open>calculateNeighbors\<close>, for the pair \<open>i < j\<close>.\<close>

definition linkIfClose :: "nat \<times> nat \<Rightarrow> territory list \<Rightarrow> territory list" where
  "linkIfClose ij ts =
     (let i = fst ij; j = snd ij
      in if distance (center (ts ! i)) (center (ts ! j)) < 150
         then
           let ts1 = ts[i := addNeighbor (ts ! i) (tid (ts ! j))]
           in ts1[j := addNeighbor (ts1 ! j) (tid (ts1 ! i))]
         else ts)"

definition pairs :: "nat \<Rightarrow> (nat \<times> nat) list" where
  "pairs n = concat (map (\<lambda>i. map (\<lambda>j. (i, j)) [i + 1..<n]) [0..<n])"

text \<open>The search of the second loop for the closest other territory.\<close>

fun closestOther :: "territory \<Rightarrow> territory list \<Rightarrow> int option \<Rightarrow> real option \<Rightarrow> int option" where
  "closestOther territory [] closestId closestDist = closestId"
| "closestOther territory (other # rest) closestId closestDist =
     (if tid other \<noteq> tid territory \<and> below (distance (center territory) (center other)) closestDist
      then closestOther territory rest (Some (tid other))
             (Some (distance (center territory) (center other)))
      else closestOther territory rest closestId closestDist)"

text \<open>
  The second loop, over the indices \<open>ks\<close> of the array. \<open>territories[closestId]\<close> is an
  access by id: were it no index, \<open>addNeighbor\<close> on it would throw.
\<close>

fun ensureNeighbors :: "nat list \<Rightarrow> territory list \<Rightarrow> js_error + territory list" where
  "ensureNeighbors [] ts = Inr ts"
| "ensureNeighbors (k # ks) ts =
     (if length (neighbors (ts ! k)) = 0
      then
        (case closestOther (ts ! k) ts None None of
           None \<Rightarrow> ensureNeighbors ks ts
         | Some closestId \<Rightarrow>
             (case territory_at (ts[k := addNeighbor (ts ! k) closestId]) closestId of
                None \<Rightarrow> Inl TypeError
              | Some other \<Rightarrow>
                  ensureNeighbors ks
                    ((ts[k := addNeighbor (ts ! k) closestId])
                       [nat closestId := addNeighbor other (tid (ts ! k))])))
      else ensureNeighbors ks ts)"

definition calculateNeighbors :: "territory list \<Rightarrow> js_error + territory list" where
  "calculateNeighbors ts =
     ensureNeighbors [0..<length ts] (fold linkIfClose (pairs (length ts)) ts)"

definition generateMap ::
  "nat \<Rightarrow> real \<Rightarrow> real \<Rightarrow> (nat \<Rightarrow> real) \<Rightarrow> (js_error + territory list) option" where
  "generateMap count width height rnd =
     (case generatePoints count width height rnd of
        None \<Rightarrow> None
      | Some points \<Rightarrow> Some (calculateNeighbors (createTerritories points width height)))"

section \<open>Starting a game\<close>

text \<open>An entry of the list given to \<open>initializeGame\<close>; \<open>isAI\<close> may be absent.\<close>

record lobby_player =
  l_id :: string
  l_name :: string
  l_isAI :: "bool option"

definition getPlayerColor :: "nat \<Rightarrow> string" where
  "getPlayerColor index =
     [''#FF4444'', ''#4444FF'', ''#44FF44'', ''#FFFF44'',
      ''#FF44FF'', ''#44FFFF'', ''#FF8844'', ''#8844FF''] ! (index mod 8)"

text \<open>
  The shuffle sorts a copy of the array with a random comparator; what it returns is the
  objects of \<open>territories\<close> in some order, given here as the list \<open>shuffled\<close> of their
  indices. The inner loop deals up to \<open>i\<close> further territories to one player.
\<close>

fun dealTo :: "string \<Rightarrow> nat \<Rightarrow> nat list \<Rightarrow> nat \<Rightarrow> territory list \<Rightarrow> nat \<times> territory list" where
  "dealTo p 0 shuffled territoryIndex ts = (territoryIndex, ts)"
| "dealTo p (Suc i) shuffled territoryIndex ts =
     (if territoryIndex < length shuffled
      then dealTo p i shuffled (territoryIndex + 1)
             (ts[shuffled ! territoryIndex :=
                   (ts ! (shuffled ! territoryIndex))\<lparr>owner := Some p, troops := 15\<rparr>])
      else dealTo p i shuffled territoryIndex ts)"

fun dealAll :: "player list \<Rightarrow> nat \<Rightarrow> nat list \<Rightarrow> nat \<Rightarrow> territory list \<Rightarrow> nat \<times> territory list" where
  "dealAll [] territoriesPerPlayer shuffled territoryIndex ts = (territoryIndex, ts)"
| "dealAll (p # ps) territoriesPerPlayer shuffled territoryIndex ts =
     (case dealTo (pid p) territoriesPerPlayer shuffled territoryIndex ts of
        (territoryIndex', ts') \<Rightarrow> dealAll ps territoriesPerPlayer shuffled territoryIndex' ts')"

text \<open>
  \<open>territoriesPerPlayer\<close> is \<open>Math.floor(n / p / 2)\<close>; for an empty roster the quotient is
  not a number, and the loop over the players that would use it does not run.
\<close>

definition assignStartingTerritories :: "game_state \<Rightarrow> nat list \<Rightarrow> game_state" where
  "assignStartingTerritories s shuffled =
     (let territoriesPerPlayer = length (territories s) div length (players s) div 2
      in case dealAll (players s) territoriesPerPlayer shuffled 0 (territories s) of
           (territoryIndex, ts) \<Rightarrow>
             updatePlayerStats
               (s\<lparr>territories :=
                    fold (\<lambda>i ts'. ts'[shuffled ! i := (ts' ! (shuffled ! i))\<lparr>owner := None, troops := 5\<rparr>])
                         [territoryIndex..<length shuffled] ts\<rparr>))"

text \<open>
  \<open>initializeGame\<close> replaces the \<open>players\<close> array by new objects and does not touch
  \<open>winner\<close>: a reference into the old array stays a reference to the old object.
\<close>

definition initializeGame ::
  "game_state \<Rightarrow> lobby_player list \<Rightarrow> (nat \<Rightarrow> real) \<Rightarrow> nat list \<Rightarrow> int
     \<Rightarrow> (js_error + game_state) option" where
  "initializeGame s lobby rnd shuffled now =
     (case generateMap (territoryCount s) (mapWidth s) (mapHeight s) rnd of
        None \<Rightarrow> None
      | Some (Inl e) \<Rightarrow> Some (Inl e)
      | Some (Inr ts) \<Rightarrow>
          Some (Inr ((assignStartingTerritories
                        (s\<lparr>winner :=
                             (case winner s of
                                Some (RosterEntry i) \<Rightarrow> Some (Detached (players s ! i))
                              | w \<Rightarrow> w),
                           players :=
                             map (\<lambda>(idx, p).
                                    \<lparr>pid = l_id p, pname = l_name p, color = getPlayerColor idx,
                                     isAI = (case l_isAI p of None \<Rightarrow> False | Some b \<Rightarrow> b),
                                     isAlive = True, territoriesOwned = 0, totalTroops = 0\<rparr>)
                                 (enumerate 0 lobby),
                           territories := ts\<rparr>)
                        shuffled)
                      \<lparr>gamePhase := ''playing'', currentTurn := 0, turnStartTime := now\<rparr>)))"

section \<open>Reference predicates\<close>



text \<open>
  The aggregates of every player are those of the territories: \<open>territoriesOwned\<close> is the
  number of territories whose owner is the player's id, \<open>totalTroops\<close> the sum of their
  troops.
\<close>

definition statsConsistent :: "game_state \<Rightarrow> bool" where
  "statsConsistent s =
     list_all (\<lambda>p. territoriesOwned p
                      = length (filter (\<lambda>t. owner t = Some (pid p)) (territories s))
                    \<and> totalTroops p
                      = sum_list (map troops (filter (\<lambda>t. owner t = Some (pid p)) (territories s))))
              (players s)"

text \<open>
  The win condition as a predicate on states, with a player alive when it owns a
  territory: \<open>ownersAlive\<close> lists the indices of the players that own a territory; if
  there is exactly one, the game has ended and \<open>winner\<close> refers to that player; if there
  is none, the game has ended without a winner.
\<close>

definition ownersAlive :: "game_state \<Rightarrow> nat list" where
  "ownersAlive s =
     filter (\<lambda>i. 0 < length (ownedBy (pid (players s ! i)) (territories s)))
            [0..<length (players s)]"

definition winConditionHolds :: "game_state \<Rightarrow> bool" where
  "winConditionHolds s =
     ((length (ownersAlive s) = 1
         \<longrightarrow> gamePhase s = ''ended'' \<and> winner s = Some (RosterEntry (ownersAlive s ! 0)))
      \<and> (length (ownersAlive s) = 0 \<longrightarrow> gamePhase s = ''ended'' \<and> winner s = None))"

text \<open>Every neighbor id in the state is an index of the territory array.\<close>

definition neighborsValid :: "game_state \<Rightarrow> bool" where
  "neighborsValid s =
     list_all (\<lambda>t. list_all (\<lambda>n. 0 \<le> n \<and> n < int (length (territories s))) (neighbors t))
              (territories s)"

text \<open>
  The legal attacks of a player, as pairs of ids: an owned territory with more than one
  troop, and a neighbor of it that the player does not own.
\<close>

definition legalAttacks :: "game_state \<Rightarrow> string \<Rightarrow> (int \<times> int) list" where
  "legalAttacks s p =
     concat (map (\<lambda>t. if 1 < troops t
                       then concat (map (\<lambda>n. case territory_at (territories s) n of
                                                 None \<Rightarrow> []
                                               | Some nb \<Rightarrow>
                                                   if owner nb = Some p then []
                                                   else [(tid t, tid nb)])
                                        (neighbors t))
                       else [])
                 (filter (\<lambda>t. owner t = Some p) (territories s)))"

text \<open>Sequences of draws of \<open>Math.random()\<close> for the examples.\<close>

definition constantDraws :: "real \<Rightarrow> nat \<Rightarrow> real" where
  "constantDraws c n = c"

definition lateDraws :: "nat \<Rightarrow> real" where
  "lateDraws n = (if n < 72 then 1 / 2 else 9 / 10)"

definition spreadDraws :: "nat \<Rightarrow> real" where
  "spreadDraws n = (if n < 2 then 1 / 10 else 9 / 10)"

section \<open>Example states\<close>

definition ex_territory :: "int \<Rightarrow> string option \<Rightarrow> int \<Rightarrow> int list \<Rightarrow> territory" where
  "ex_territory i w n ns =
     \<lparr>tid = i, vertices = [], center = \<lparr>px = 0, py = 0\<rparr>, owner = w, troops = n,
      neighbors = ns\<rparr>"

definition ex_player :: "string \<Rightarrow> player" where
  "ex_player p =
     \<lparr>pid = p, pname = p, color = ''#FF4444'', isAI = False, isAlive = True,
      territoriesOwned = 0, totalTroops = 0\<rparr>"

definition ex_state :: "territory list \<Rightarrow> player list \<Rightarrow> game_state" where
  "ex_state ts ps =
     \<lparr>territories = ts, players = ps, currentTurn = 0, turnTimeLimit = 45000,
      turnStartTime = 0, gamePhase = ''playing'', winner = None, mapWidth = 1200,
      mapHeight = 800, territoryCount = 60, troopGenerationRate = 1\<rparr>"

text \<open>Two players, two adjacent territories: ten troops against three.\<close>

definition duel :: game_state where
  "duel = ex_state [ex_territory 0 (Some ''a'') 10 [1], ex_territory 1 (Some ''b'') 3 [0]]
                   [ex_player ''a'', ex_player ''b'']"

text \<open>Ninety troops against three, and seven against seven.\<close>

definition siege :: game_state where
  "siege = ex_state [ex_territory 0 (Some ''a'') 90 [1], ex_territory 1 (Some ''b'') 3 [0]]
                    [ex_player ''a'', ex_player ''b'']"

definition standoff :: game_state where
  "standoff = ex_state [ex_territory 0 (Some ''a'') 7 [1], ex_territory 1 (Some ''b'') 7 [0]]
                       [ex_player ''a'', ex_player ''b'']"

text \<open>Four players; \<open>c\<close> and \<open>d\<close> own nothing, and \<open>b\<close> holds its last territory.\<close>

definition lastStand :: game_state where
  "lastStand = ex_state [ex_territory 0 (Some ''a'') 10 [1], ex_territory 1 (Some ''b'') 3 [0]]
                        [ex_player ''a'', ex_player ''b'', ex_player ''c'', ex_player ''d'']"

text \<open>Four players, every territory owned by \<open>a\<close>, and the game still marked as running.\<close>

definition soleOwner :: game_state where
  "soleOwner = ex_state [ex_territory 0 (Some ''a'') 10 [1], ex_territory 1 (Some ''a'') 3 [0]]
                        [ex_player ''a'', ex_player ''b'', ex_player ''c'', ex_player ''d'']"

text \<open>Four territories in a ring and two players, before and after the deal.\<close>

definition fourRegions :: game_state where
  "fourRegions =
     ex_state [ex_territory 0 None 10 [1, 3], ex_territory 1 None 10 [0, 2],
               ex_territory 2 None 10 [1, 3], ex_territory 3 None 10 [0, 2]]
              [ex_player ''a'', ex_player ''b'']"

definition dealtFour :: game_state where
  "dealtFour = assignStartingTerritories fourRegions [2, 0, 3, 1]"

text \<open>A game configured with one territory on a 10 by 10 map, and a lobby of two.\<close>

definition tinyGame :: game_state where
  "tinyGame =
     new_GameState \<lparr>c_turnTimeLimit = None, c_mapWidth = Some 10, c_mapHeight = Some 10,
                    c_territoryCount = Some 1, c_troopGenerationRate = None\<rparr> 0"

definition twoInLobby :: "lobby_player list" where
  "twoInLobby = [\<lparr>l_id = ''a'', l_name = ''Ann'', l_isAI = None\<rparr>,
                 \<lparr>l_id = ''b'', l_name = ''Bot'', l_isAI = Some True\<rparr>]"

text \<open>A game configured with two territories on a 10 by 10 map, and a lobby of one.\<close>

definition soloGame :: game_state where
  "soloGame =
     new_GameState \<lparr>c_turnTimeLimit = None, c_mapWidth = Some 10, c_mapHeight = Some 10,
                    c_territoryCount = Some 2, c_troopGenerationRate = None\<rparr> 0"

definition oneInLobby :: "lobby_player list" where
  "oneInLobby = [\<lparr>l_id = ''a'', l_name = ''Ann'', l_isAI = None\<rparr>]"

section \<open>Properties\<close>

subsection \<open>Auxiliary facts about rounding\<close>

lemma pow2_powi: "pow2 k = 2 powi k"
  by (simp add: pow2_def power_int_def field_simps)

lemma pow2_pos [simp]: "0 < pow2 k"
  by (simp add: pow2_powi)

lemma pow2_nonneg [simp]: "0 \<le> pow2 k"
  using pow2_pos [of k] by linarith

lemma pow2_add: "pow2 (a + b) = pow2 a * pow2 b"
  by (simp add: pow2_powi power_int_add)

lemma pow2_mono: "a \<le> b \<Longrightarrow> pow2 a \<le> pow2 b"
  by (simp add: pow2_powi power_int_increasing)

lemma pow2_less_iff: "pow2 a < pow2 b \<longleftrightarrow> a < b"
proof
  assume "a < b"
  then show "pow2 a < pow2 b" by (simp add: pow2_powi power_int_strict_increasing)
next
  assume l: "pow2 a < pow2 b"
  show "a < b"
  proof (rule ccontr)
    assume "\<not> a < b"
    then have "pow2 b \<le> pow2 a" by (intro pow2_mono) simp
    then show False using l by simp
  qed
qed

lemma pow2_nat: "0 \<le> k \<Longrightarrow> pow2 k = 2 ^ nat k"
  by (simp add: pow2_def)

lemma ilog2_bounds:
  "1 \<le> n \<Longrightarrow> 0 \<le> ilog2 n \<and> 2 ^ nat (ilog2 n) \<le> n \<and> n < 2 ^ (nat (ilog2 n) + 1)"
proof (induction n rule: ilog2.induct)
  case (1 n)
  show ?case
  proof (cases "n \<le> 1")
    case True
    then have "n = 1" using 1 by simp
    then show ?thesis by (simp add: ilog2.simps)
  next
    case False
    then have h: "1 \<le> n div 2" by simp
    let ?k = "nat (ilog2 (n div 2))"
    have ih: "0 \<le> ilog2 (n div 2)" "2 ^ ?k \<le> n div 2" "n div 2 < 2 ^ (?k + 1)"
      using 1(1) [OF False h] by auto
    have e: "ilog2 n = 1 + ilog2 (n div 2)" using False by (subst ilog2.simps) simp
    have k: "nat (ilog2 n) = ?k + 1" using e ih(1) by simp
    have "2 * 2 ^ ?k \<le> n" using ih(2) by linarith
    moreover have "n < 2 * 2 ^ (?k + 1)" using ih(3) by linarith
    ultimately show ?thesis using e ih(1) k by simp
  qed
qed

lemma expo_bounds:
  assumes "0 < x"
  shows "pow2 (expo x) \<le> x \<and> x < pow2 (expo x + 1)"
proof (cases "1 \<le> x")
  case True
  then have f: "1 \<le> \<lfloor>x\<rfloor>" by simp
  let ?k = "nat (ilog2 \<lfloor>x\<rfloor>)"
  have b: "0 \<le> ilog2 \<lfloor>x\<rfloor>" "2 ^ ?k \<le> \<lfloor>x\<rfloor>" "\<lfloor>x\<rfloor> < 2 ^ (?k + 1)"
    using ilog2_bounds [OF f] by auto
  have e: "expo x = ilog2 \<lfloor>x\<rfloor>" using True by (simp add: expo_def)
  have "(2::rat) ^ ?k \<le> of_int \<lfloor>x\<rfloor>" using b(2) by (metis of_int_le_iff of_int_numeral of_int_power)
  then have lo: "pow2 (expo x) \<le> x" unfolding e pow2_nat [OF b(1)] by linarith
  have "\<lfloor>x\<rfloor> + 1 \<le> 2 ^ (?k + 1)" using b(3) by simp
  then have "of_int (\<lfloor>x\<rfloor> + 1) \<le> (2::rat) ^ (?k + 1)"
    by (metis of_int_le_iff of_int_numeral of_int_power)
  moreover have "x < of_int (\<lfloor>x\<rfloor> + 1)" by linarith
  ultimately have "x < 2 ^ (?k + 1)" by linarith
  moreover have "pow2 (expo x + 1) = 2 ^ (?k + 1)"
    unfolding e using b(1) by (simp add: pow2_def nat_add_distrib)
  ultimately show ?thesis using lo by simp
next
  case False
  define y where "y = 1 / x"
  have y: "1 < y" using False assms by (simp add: y_def)
  define m where "m = \<lceil>y\<rceil> - 1"
  have m1: "1 \<le> m" using y unfolding m_def by linarith
  let ?k = "nat (ilog2 m)"
  have b: "0 \<le> ilog2 m" "2 ^ ?k \<le> m" "m < 2 ^ (?k + 1)"
    using ilog2_bounds [OF m1] by auto
  have e: "expo x = - (ilog2 m + 1)" using False by (simp add: expo_def m_def y_def)
  have up: "\<lceil>y\<rceil> \<le> 2 ^ (?k + 1)" using b(3) by (simp add: m_def)
  then have "of_int \<lceil>y\<rceil> \<le> (2::rat) ^ (?k + 1)"
    by (metis of_int_le_iff of_int_numeral of_int_power)
  then have yle: "y \<le> 2 ^ (?k + 1)" by linarith
  have "(2::int) ^ ?k < \<lceil>y\<rceil>" using b(2) by (simp add: m_def)
  then have "of_int (2 ^ ?k) < y" by (simp add: less_ceiling_iff)
  then have ygt: "2 ^ ?k < y" by simp
  have x: "x = 1 / y" using assms by (simp add: y_def)
  have p1: "pow2 (expo x) = 1 / 2 ^ (?k + 1)"
    unfolding e using b(1) by (simp add: pow2_def nat_add_distrib)
  have p2: "pow2 (expo x + 1) = 1 / 2 ^ ?k"
    unfolding e using b(1) by (simp add: pow2_def)
  have "1 / 2 ^ (?k + 1) \<le> 1 / y" using yle y by (intro divide_left_mono) auto
  moreover have "1 / y < 1 / 2 ^ ?k" using ygt y by (intro divide_strict_left_mono) auto
  ultimately have "1 / 2 ^ (?k + 1) \<le> x \<and> x < 1 / 2 ^ ?k" using x by simp
  then show ?thesis by (simp only: p1 p2)
qed

lemma expo_unique:
  assumes "pow2 e \<le> x" and "x < pow2 (e + 1)"
  shows "expo x = e"
proof -
  have x: "0 < x" using assms(1) pow2_pos [of e] by linarith
  note b = expo_bounds [OF x]
  have "pow2 e < pow2 (expo x + 1)" using assms(1) b by linarith
  moreover have "pow2 (expo x) < pow2 (e + 1)" using assms(2) b by linarith
  ultimately show ?thesis unfolding pow2_less_iff by linarith
qed

lemma expo_mono:
  assumes "0 < x" and "x \<le> y"
  shows "expo x \<le> expo y"
proof -
  have "pow2 (expo x) < pow2 (expo y + 1)"
    using expo_bounds [OF assms(1)] expo_bounds [of y] assms by linarith
  then show ?thesis unfolding pow2_less_iff by simp
qed

lemma round_half_even_cases:
  "round_half_even q = \<lfloor>q\<rfloor> \<or> round_half_even q = \<lfloor>q\<rfloor> + 1"
  by (simp add: round_half_even_def Let_def)

lemma round_half_even_of_int [simp]: "round_half_even (of_int n) = n"
  by (simp add: round_half_even_def Let_def)

lemma round_half_even_mono:
  assumes "a \<le> b"
  shows "round_half_even a \<le> round_half_even b"
proof (cases "\<lfloor>a\<rfloor> < \<lfloor>b\<rfloor>")
  case True
  have "round_half_even a \<le> \<lfloor>a\<rfloor> + 1" using round_half_even_cases [of a] by auto
  moreover have "\<lfloor>b\<rfloor> \<le> round_half_even b" using round_half_even_cases [of b] by auto
  ultimately show ?thesis using True by linarith
next
  case False
  then have f: "\<lfloor>a\<rfloor> = \<lfloor>b\<rfloor>" using floor_mono [OF assms] by linarith
  then have d: "a - of_int \<lfloor>b\<rfloor> \<le> b - of_int \<lfloor>b\<rfloor>" using assms by simp
  show ?thesis
    using d unfolding round_half_even_def Let_def f
    by (auto split: if_splits)
qed

lemma round_half_even_ge: "of_int n \<le> q \<Longrightarrow> n \<le> round_half_even q"
  using round_half_even_mono [of "of_int n" q] by simp

lemma round_half_even_le: "q \<le> of_int n \<Longrightarrow> round_half_even q \<le> n"
  using round_half_even_mono [of q "of_int n"] by simp

text \<open>Within its binade, a positive number rounds to a multiple of the unit in the last place.\<close>

lemma fl_pos:
  assumes "0 < x"
  shows "fl x = of_int (round_half_even (x / pow2 (expo x - 52))) * pow2 (expo x - 52)"
  using assms by (simp add: fl_def Let_def)

lemma fl_lower:
  assumes "0 < x"
  shows "pow2 (expo x) \<le> fl x"
proof -
  let ?u = "pow2 (expo x - 52)"
  have "pow2 (52 + (expo x - 52)) = pow2 52 * ?u" by (rule pow2_add)
  moreover have "pow2 52 = 2 ^ 52" by (simp add: pow2_def)
  ultimately have u: "pow2 (expo x) = 2 ^ 52 * ?u" by simp
  have "of_int (2 ^ 52) \<le> x / ?u"
    using expo_bounds [OF assms] u by (simp add: pos_le_divide_eq)
  then have "2 ^ 52 \<le> round_half_even (x / ?u)" by (rule round_half_even_ge)
  then have "(2 ^ 52 :: rat) \<le> of_int (round_half_even (x / ?u))"
    by (metis of_int_le_iff of_int_numeral of_int_power)
  then have "2 ^ 52 * ?u \<le> of_int (round_half_even (x / ?u)) * ?u"
    by (intro mult_right_mono) auto
  then show ?thesis unfolding fl_pos [OF assms] u .
qed

lemma fl_upper:
  assumes "0 < x"
  shows "fl x \<le> pow2 (expo x + 1)"
proof -
  let ?u = "pow2 (expo x - 52)"
  have "pow2 (53 + (expo x - 52)) = pow2 53 * ?u" by (rule pow2_add)
  moreover have "pow2 53 = 2 ^ 53" by (simp add: pow2_def)
  moreover have "53 + (expo x - 52) = expo x + 1" by simp
  ultimately have u: "pow2 (expo x + 1) = 2 ^ 53 * ?u" by simp
  have "x / ?u \<le> of_int (2 ^ 53)"
    using expo_bounds [OF assms] u by (simp add: pos_divide_le_eq)
  then have "round_half_even (x / ?u) \<le> 2 ^ 53" by (rule round_half_even_le)
  then have "of_int (round_half_even (x / ?u)) \<le> (2 ^ 53 :: rat)"
    by (metis of_int_le_iff of_int_numeral of_int_power)
  then have "of_int (round_half_even (x / ?u)) * ?u \<le> 2 ^ 53 * ?u"
    by (intro mult_right_mono) auto
  then show ?thesis unfolding fl_pos [OF assms] u .
qed

lemma fl_mono:
  assumes "0 < x" and "x \<le> y"
  shows "fl x \<le> fl y"
proof (cases "expo x = expo y")
  case True
  have y: "0 < y" using assms by simp
  let ?u = "pow2 (expo y - 52)"
  have "x / ?u \<le> y / ?u" using assms(2) by (simp add: divide_right_mono)
  then have "round_half_even (x / ?u) \<le> round_half_even (y / ?u)"
    by (rule round_half_even_mono)
  then have "of_int (round_half_even (x / ?u)) * ?u \<le> of_int (round_half_even (y / ?u)) * ?u"
    by (intro mult_right_mono) auto
  then show ?thesis unfolding fl_pos [OF assms(1)] fl_pos [OF y] True .
next
  case False
  have y: "0 < y" using assms by simp
  have "expo x + 1 \<le> expo y" using False expo_mono [OF assms] by simp
  then have "pow2 (expo x + 1) \<le> pow2 (expo y)" by (rule pow2_mono)
  then show ?thesis using fl_upper [OF assms(1)] fl_lower [OF y] by linarith
qed

lemma fl_nonneg_mono:
  assumes "0 \<le> x" and "x \<le> y"
  shows "fl x \<le> fl y"
proof (cases "x = 0")
  case True
  show ?thesis
  proof (cases "y = 0")
    case True
    then show ?thesis using \<open>x = 0\<close> by simp
  next
    case False
    then have "0 < y" using assms True by simp
    then have "0 < fl y" using fl_lower [of y] pow2_pos [of "expo y"] by linarith
    then show ?thesis using True by (simp add: fl_def)
  qed
next
  case False
  then show ?thesis using fl_mono assms by simp
qed

text \<open>The largest binary64 number below 1 is \<open>1 - 2^-53\<close>.\<close>

lemma double_below_one:
  assumes "fl r = r" and "0 < r" and "r < 1"
  shows "r \<le> 1 - 1 / 2 ^ 53"
proof -
  define e where "e = expo r"
  define u where "u = pow2 (e - 52)"
  define m where "m = round_half_even (r / u)"
  have upos: "0 < u" by (simp add: u_def)
  have b: "pow2 e \<le> r" "r < pow2 (e + 1)"
    using expo_bounds [OF assms(2)] by (auto simp: e_def)
  have "pow2 e < pow2 0" using b(1) assms(3) by (simp add: pow2_def)
  then have e: "e + 1 \<le> 0" unfolding pow2_less_iff by simp
  have top: "pow2 (e + 1) \<le> 1" using pow2_mono [OF e] by (simp add: pow2_def)
  have "pow2 (53 + (e - 52)) = pow2 53 * u" unfolding u_def by (rule pow2_add)
  moreover have "pow2 53 = 2 ^ 53" by (simp add: pow2_def)
  moreover have "53 + (e - 52) = e + 1" by simp
  ultimately have u: "pow2 (e + 1) = 2 ^ 53 * u" by simp
  have r: "r = of_int m * u"
    using fl_pos [OF assms(2)] assms(1) by (simp add: m_def u_def e_def)
  have "of_int m * u < 2 ^ 53 * u" using b(2) unfolding u r .
  then have "of_int m < (2 ^ 53 :: rat)" using upos by simp
  then have "of_int m < (of_int (2 ^ 53) :: rat)" by simp
  then have "m < 2 ^ 53" by (simp only: of_int_less_iff)
  then have "m \<le> 2 ^ 53 - 1" by simp
  then have "(of_int m :: rat) \<le> of_int (2 ^ 53 - 1)" by (simp only: of_int_le_iff)
  then have "of_int m \<le> (2 ^ 53 - 1 :: rat)" by simp
  then have "of_int m * u \<le> (2 ^ 53 - 1) * u" using upos by (intro mult_right_mono) auto
  also have "\<dots> = 2 ^ 53 * u * (1 - 1 / 2 ^ 53)" by (simp add: algebra_simps)
  also have "\<dots> = pow2 (e + 1) * (1 - 1 / 2 ^ 53)" by (simp only: u)
  also have "\<dots> \<le> 1 * (1 - 1 / 2 ^ 53)" using top by (intro mult_right_mono) auto
  finally show ?thesis unfolding r by simp
qed

lemma rollFactor_range:
  assumes "0 \<le> r" and "r < 1" and "fl r = r"
  shows "8 / 10 \<le> rollFactor r \<and> rollFactor r \<le> 12 / 10"
proof -
  let ?a = "lit (8 / 10)"
  let ?b = "lit (4 / 10)"
  let ?c = "(1 - 1 / 2 ^ 53) * ?b"
  have a: "0 < ?a" by code_simp
  have bpos: "0 \<le> ?b" by code_simp
  have r1: "r \<le> 1 - 1 / 2 ^ 53"
    using double_below_one [OF assms(3)] assms(1,2) by (cases "r = 0") auto
  have x0: "0 \<le> r * ?b" using assms(1) bpos by simp
  have xc: "r * ?b \<le> ?c" using r1 bpos by (intro mult_right_mono) auto
  have y0: "0 \<le> js_mul r ?b"
    using fl_nonneg_mono [of 0 "r * ?b"] x0 by (simp add: js_mul_def fl_def)
  have yc: "js_mul r ?b \<le> fl ?c"
    unfolding js_mul_def using fl_nonneg_mono [OF x0 xc] .
  have lo: "fl ?a \<le> fl (?a + js_mul r ?b)" using a y0 by (intro fl_mono) auto
  have hi: "fl (?a + js_mul r ?b) \<le> fl (?a + fl ?c)" using a y0 yc by (intro fl_mono) auto
  have l: "8 / 10 \<le> fl ?a" by code_simp
  have h: "fl (?a + fl ?c) \<le> 12 / 10" by code_simp
  show ?thesis unfolding rollFactor_def js_add_def using lo hi l h by linarith
qed

text \<open>Rounding moves a number by at most half a unit in the last place.\<close>

lemma round_half_even_close: "\<bar>of_int (round_half_even q) - q\<bar> \<le> 1 / 2"
proof -
  have "of_int \<lfloor>q\<rfloor> \<le> q" "q < of_int \<lfloor>q\<rfloor> + 1" by linarith+
  then show ?thesis
    by (auto simp: round_half_even_def Let_def abs_le_iff)
qed

lemma pow2_52: "pow2 (e - 52) = pow2 e / 2 ^ 52"
proof -
  have "pow2 (52 + (e - 52)) = pow2 52 * pow2 (e - 52)" by (rule pow2_add)
  moreover have "pow2 52 = 2 ^ 52" by (simp add: pow2_def)
  ultimately show ?thesis by simp
qed

lemma fl_error:
  assumes "0 < x"
  shows "\<bar>fl x - x\<bar> \<le> x / 2 ^ 53"
proof -
  define u where "u = pow2 (expo x - 52)"
  define m where "m = round_half_even (x / u)"
  have upos: "0 < u" by (simp add: u_def)
  have "u = pow2 (expo x) / 2 ^ 52" unfolding u_def by (rule pow2_52)
  moreover have "pow2 (expo x) \<le> x" using expo_bounds [OF assms] by simp
  ultimately have ule: "u \<le> x / 2 ^ 52" by (simp add: divide_right_mono)
  have xu: "x = x / u * u" using upos by simp
  have "fl x = of_int m * u" by (simp add: fl_pos [OF assms] m_def u_def)
  then have "fl x - x = of_int m * u - x / u * u" using xu by simp
  then have "fl x - x = (of_int m - x / u) * u" by (simp only: left_diff_distrib)
  then have "\<bar>fl x - x\<bar> = \<bar>of_int m - x / u\<bar> * u"
    using upos by (simp add: abs_mult)
  also have "\<dots> \<le> 1 / 2 * u"
    using round_half_even_close [of "x / u"] upos unfolding m_def
    by (intro mult_right_mono) auto
  also have "\<dots> \<le> 1 / 2 * (x / 2 ^ 52)" using ule by simp
  finally show ?thesis by simp
qed

text \<open>A multiple of the unit in the last place of its binade is a binary64 number.\<close>

lemma fl_exact:
  assumes "0 < x" and "x / pow2 (expo x - 52) = of_int k"
  shows "fl x = x"
proof -
  define u where "u = pow2 (expo x - 52)"
  have upos: "0 < u" by (simp add: u_def)
  have q: "x / u = of_int k" using assms(2) by (simp add: u_def)
  have "fl x = of_int (round_half_even (x / u)) * u"
    by (simp add: fl_pos [OF assms(1)] u_def)
  also have "\<dots> = x / u * u" unfolding q by simp
  also have "\<dots> = x" using upos by simp
  finally show ?thesis .
qed

lemma expo_less:
  assumes "0 < x" and "x < pow2 b"
  shows "expo x < b"
proof -
  have "pow2 (expo x) < pow2 b" using expo_bounds [OF assms(1)] assms(2) by linarith
  then show ?thesis unfolding pow2_less_iff .
qed

lemma pow2_neg_int: "e \<le> b \<Longrightarrow> 1 / pow2 (e - b) = of_int (2 ^ nat (b - e))"
  by (simp add: pow2_def)

lemma fl_of_int:
  assumes "0 < n" and "n < 2 ^ 53"
  shows "fl (of_int n) = of_int n"
proof -
  have x: "0 < (of_int n :: rat)" using assms by simp
  have "(of_int n :: rat) < of_int (2 ^ 53)" using assms(2) by (simp only: of_int_less_iff)
  then have "(of_int n :: rat) < pow2 53" by (simp add: pow2_def)
  then have e: "expo (of_int n) \<le> 52" using expo_less [OF x] by fastforce
  have "of_int n / pow2 (expo (of_int n) - 52)
          = (of_int n :: rat) * (1 / pow2 (expo (of_int n) - 52))" by simp
  also have "\<dots> = of_int (n * 2 ^ nat (52 - expo (of_int n)))"
    unfolding pow2_neg_int [OF e] by simp
  finally show ?thesis by (rule fl_exact [OF x])
qed

lemma fl_half_int:
  assumes "0 < n" and "n < 2 ^ 53"
  shows "fl (of_int n / 2) = of_int n / 2"
proof -
  have x: "0 < (of_int n / 2 :: rat)" using assms by simp
  have "(of_int n :: rat) < of_int (2 ^ 53)" using assms(2) by (simp only: of_int_less_iff)
  then have "(of_int n / 2 :: rat) < pow2 52" by (simp add: pow2_def)
  then have e: "expo (of_int n / 2) \<le> 51" using expo_less [OF x] by fastforce
  then have e': "expo (of_int n / 2) \<le> 52" by simp
  have "nat (52 - expo (of_int n / 2)) = Suc (nat (51 - expo (of_int n / 2)))"
    using e by linarith
  then have s: "(2 :: int) ^ nat (52 - expo (of_int n / 2))
                  = 2 * 2 ^ nat (51 - expo (of_int n / 2))"
    by simp
  have "of_int n / 2 / pow2 (expo (of_int n / 2) - 52)
          = (of_int n / 2 :: rat) * (1 / pow2 (expo (of_int n / 2) - 52))" by simp
  also have "\<dots> = of_int (n * 2 ^ nat (51 - expo (of_int n / 2)))"
    unfolding pow2_neg_int [OF e'] s by simp
  finally show ?thesis by (rule fl_exact [OF x])
qed

text \<open>
  The floor of the rounded product of an integer below \<open>2^31\<close> by a literal \<open>d\<close> that is
  just below \<open>p / 10\<close>: it is the floor of the exact product or one less, and the floor of
  the exact product unless that product is an integer.
\<close>

lemma tenths:
  fixes n p :: int
  shows "(of_int p / 10 :: rat) * of_int n = of_int ((p * n) div 10) + of_int ((p * n) mod 10) / 10"
proof -
  have "p * n = 10 * ((p * n) div 10) + (p * n) mod 10" by simp
  then have "(of_int (p * n) :: rat) = of_int (10 * ((p * n) div 10) + (p * n) mod 10)"
    by (simp only:)
  then have "(of_int p :: rat) * of_int n = 10 * of_int ((p * n) div 10) + of_int ((p * n) mod 10)"
    by (simp only: of_int_add of_int_mult of_int_numeral)
  then show ?thesis by simp
qed

lemma floor_product:
  fixes n p :: int and c d :: rat
  assumes n: "0 \<le> n" "n < 2 ^ 31"
    and c: "c = of_int p / 10" and p: "0 < p" "p < 10"
    and d: "0 < d" "d \<le> c" "c - d \<le> 1 / 2 ^ 54"
  shows "(p * n) div 10 - 1 \<le> \<lfloor>fl (of_int n * d)\<rfloor>
       \<and> \<lfloor>fl (of_int n * d)\<rfloor> \<le> (p * n) div 10
       \<and> ((p * n) mod 10 \<noteq> 0 \<longrightarrow> \<lfloor>fl (of_int n * d)\<rfloor> = (p * n) div 10)"
proof (cases "n = 0")
  case True
  then show ?thesis by (simp add: fl_def)
next
  case False
  then have npos: "0 < n" using n by simp
  define K where "K = (p * n) div 10"
  define R where "R = (p * n) mod 10"
  define N where "N = (of_int n :: rat)"
  define x where "x = N * d"
  have Npos: "0 < N" using npos by (simp add: N_def)
  have "(of_int n :: rat) < of_int (2 ^ 31)" using n(2) by (simp only: of_int_less_iff)
  then have Nlt: "N < 2 ^ 31" by (simp add: N_def)
  have xpos: "0 < x" using Npos d(1) by (simp add: x_def)
  have cn: "c * N = of_int K + of_int R / 10"
    unfolding c N_def K_def R_def by (rule tenths)
  have R: "0 \<le> R" "R \<le> 9" by (simp_all add: R_def) 
  have c1: "c < 1" using p by (simp add: c)
  have cpos: "0 < c" using p by (simp add: c)
  have xle: "x \<le> c * N" unfolding x_def using d(2) Npos by (simp add: mult.commute mult_left_mono)
  have "c * N - x = N * (c - d)" by (simp add: x_def algebra_simps)
  also have "\<dots> \<le> N * (1 / 2 ^ 54)" using d(3) Npos by (intro mult_left_mono) auto
  finally have xge: "c * N - N / 2 ^ 54 \<le> x" by simp
  have cN: "c * N < 2 ^ 31"
  proof -
    have "c * N \<le> 1 * N" using c1 Npos by (intro mult_right_mono) auto
    then show ?thesis using Nlt by simp
  qed
  have err: "\<bar>fl x - x\<bar> \<le> x / 2 ^ 53" by (rule fl_error [OF xpos])
  have x31: "x < 2 ^ 31" using xle cN by linarith
  have e1: "x / 2 ^ 53 \<le> 1 / 2 ^ 22"
  proof -
    have "x / 2 ^ 53 \<le> 2 ^ 31 / 2 ^ 53" using x31 by (intro divide_right_mono) auto
    then show ?thesis by simp
  qed
  have e2: "N / 2 ^ 54 \<le> 1 / 2 ^ 23"
  proof -
    have "N / 2 ^ 54 \<le> 2 ^ 31 / 2 ^ 54" using Nlt by (intro divide_right_mono) auto
    then show ?thesis by simp
  qed
  have err1: "fl x - x \<le> x / 2 ^ 53" using err by (rule abs_le_D1 [OF _])
  have err2: "x - fl x \<le> x / 2 ^ 53" using err by (simp only: abs_le_iff minus_diff_eq)
  have up: "fl x \<le> c * N + 1 / 2 ^ 22" using err1 e1 xle by linarith
  have lo: "c * N - 1 / 2 ^ 21 \<le> fl x"
  proof -
    have "c * N - 1 / 2 ^ 23 - 1 / 2 ^ 22 \<le> fl x" using err2 e1 e2 xge by linarith
    then show ?thesis by simp
  qed
  have Rr: "0 \<le> (of_int R :: rat)" "(of_int R :: rat) \<le> 9" using R by simp_all
  have a: "K - 1 \<le> \<lfloor>fl x\<rfloor>"
  proof -
    have "of_int (K - 1) \<le> fl x" using lo cn Rr by simp
    then show ?thesis by (simp only: le_floor_iff)
  qed
  have b: "\<lfloor>fl x\<rfloor> \<le> K"
  proof (cases "R = 0")
    case True
    then have xK: "x \<le> of_int K" using xle cn by simp
    have "(0 :: rat) < of_int K" using xpos xK by linarith
    then have Kpos: "0 < K" by (simp only: of_int_0_less_iff)
    have "of_int K \<le> c * N" using cn True by simp
    then have "(of_int K :: rat) < of_int (2 ^ 31)" using cN by simp
    then have "K < 2 ^ 31" by (simp only: of_int_less_iff)
    then have K53: "K < 2 ^ 53" by simp
    have "fl x \<le> fl (of_int K)" using xpos xK by (rule fl_mono)
    then have "fl x \<le> of_int K" using fl_of_int [OF Kpos K53] by simp
    then have "fl x < of_int (K + 1)" by simp
    then have "\<lfloor>fl x\<rfloor> < K + 1" by (simp only: floor_less_iff)
    then show ?thesis by simp
  next
    case False
    have "fl x \<le> of_int K + 9 / 10 + 1 / 2 ^ 22" using up cn Rr by simp
    then have "fl x < of_int (K + 1)" by simp
    then have "\<lfloor>fl x\<rfloor> < K + 1" by (simp only: floor_less_iff)
    then show ?thesis by simp
  qed
  have cc: "R \<noteq> 0 \<longrightarrow> \<lfloor>fl x\<rfloor> = K"
  proof
    assume "R \<noteq> 0"
    then have "1 \<le> R" using R by simp
    then have "(1 :: rat) \<le> of_int R" by simp
    then have "of_int K \<le> fl x" using lo cn by simp
    then have "K \<le> \<lfloor>fl x\<rfloor>" by (simp only: le_floor_iff)
    then show "\<lfloor>fl x\<rfloor> = K" using b by simp
  qed
  show ?thesis using a b cc by (simp add: K_def R_def x_def N_def)
qed

text \<open>
  When the literal is close enough to \<open>p / 10\<close> (as those of 0.6 and 0.3 are, and that of
  0.7 is not), an integer product is rounded to itself.
\<close>

lemma fl_error0:
  assumes "0 \<le> x"
  shows "\<bar>fl x - x\<bar> \<le> x / 2 ^ 53"
proof (cases "x = 0")
  case True
  then show ?thesis by (simp add: fl_def)
next
  case False
  then have "0 < x" using assms by simp
  then show ?thesis by (rule fl_error)
qed

lemma floor_product_exact:
  fixes n p :: int and c d :: rat
  assumes n: "0 \<le> n" "n < 2 ^ 31"
    and c: "c = of_int p / 10" and p: "0 < p" "p < 10"
    and d: "0 < d" "d \<le> c" "c - d \<le> d / 2 ^ 54"
    and m: "(p * n) mod 10 = 0"
  shows "fl (of_int n * d) = of_int ((p * n) div 10)"
proof (cases "n = 0")
  case True
  then show ?thesis by (simp add: fl_def)
next
  case False
  then have npos: "0 < n" using n by simp
  define K where "K = (p * n) div 10"
  define N where "N = (of_int n :: rat)"
  define x where "x = N * d"
  define eps where "eps = of_int K - x"
  have Npos: "0 < N" using npos by (simp add: N_def)
  have "(of_int n :: rat) < of_int (2 ^ 31)" using n(2) by (simp only: of_int_less_iff)
  then have Nlt: "N < 2 ^ 31" by (simp add: N_def)
  have xpos: "0 < x" using Npos d(1) by (simp add: x_def)
  have cn: "c * N = of_int K"
    using tenths [of p n] m by (simp add: c N_def K_def)
  have c1: "c < 1" using p by (simp add: c)
  have cN: "c * N < 2 ^ 31"
  proof -
    have "c * N \<le> 1 * N" using c1 Npos by (intro mult_right_mono) auto
    then show ?thesis using Nlt by simp
  qed
  have Klt: "(of_int K :: rat) < 2 ^ 31" using cn cN by simp
  have eps: "eps = N * (c - d)" by (simp add: eps_def x_def cn [symmetric] algebra_simps)
  have eps0: "0 \<le> eps" unfolding eps using Npos d(2) by simp
  have "eps \<le> N * (d / 2 ^ 54)" unfolding eps using d(3) Npos by (intro mult_left_mono) auto
  then have epsx: "eps \<le> x / 2 ^ 54" by (simp add: x_def)
  have xK: "x = of_int K - eps" by (simp add: eps_def)
  have xleK: "x \<le> of_int K" using xK eps0 by simp
  have Kpos: "0 < K"
  proof -
    have "(0 :: rat) < of_int K" using xpos xleK by linarith
    then show ?thesis by (simp only: of_int_0_less_iff)
  qed
  have "(of_int K :: rat) < of_int (2 ^ 31)" using Klt by simp
  then have "K < 2 ^ 31" by (simp only: of_int_less_iff)
  then have K53: "K < 2 ^ 53" by simp
  show ?thesis
  proof (cases "eps = 0")
    case True
    then have "x = of_int K" using xK by simp
    then show ?thesis using fl_of_int [OF Kpos K53] by (simp add: x_def N_def K_def)
  next
    case False
    then have epspos: "0 < eps" using eps0 by simp
    define e where "e = expo x"
    define u where "u = pow2 (e - 52)"
    have upos: "0 < u" by (simp add: u_def)
    have b: "pow2 e \<le> x" "x < pow2 (e + 1)" using expo_bounds [OF xpos] by (simp_all add: e_def)
    have "x < pow2 31" using xleK Klt by (simp add: pow2_def)
    then have "e < 31" unfolding e_def using xpos by (intro expo_less)
    then have e52: "e \<le> 52" by simp
    have p1: "pow2 (e + 1) = 2 ^ 53 * u"
    proof -
      have "pow2 (e + 1) = pow2 e * pow2 1" by (rule pow2_add)
      moreover have "pow2 1 = 2" by (simp add: pow2_def)
      moreover have "u = pow2 e / 2 ^ 52" unfolding u_def by (rule pow2_52)
      ultimately show ?thesis by simp
    qed
    have "x / 2 ^ 54 < (2 ^ 53 * u) / 2 ^ 54" using b(2) p1 by (intro divide_strict_right_mono) auto
    then have "x / 2 ^ 54 < u / 2" by simp
    then have epsu: "eps < u / 2" using epsx by linarith
    have iu: "1 / u = of_int (2 ^ nat (52 - e))" unfolding u_def using e52 by (rule pow2_neg_int)
    define M where "M = K * 2 ^ nat (52 - e)"
    have M: "(of_int M :: rat) = of_int K * (1 / u)" unfolding iu M_def by (simp only: of_int_mult)
    define t where "t = eps / u"
    have t: "0 < t" "t < 1 / 2"
    proof -
      show "0 < t" using epspos upos by (simp add: t_def)
      have "eps / u < (u / 2) / u" using epsu upos by (intro divide_strict_right_mono) auto
      then show "t < 1 / 2" using upos by (simp add: t_def)
    qed
    have q: "x / u = of_int M - t"
      unfolding M t_def xK by (simp add: diff_divide_distrib)
    have fq: "\<lfloor>x / u\<rfloor> = M - 1"
      unfolding q using t by (intro floor_unique) auto
    have "round_half_even (x / u) = M"
      unfolding round_half_even_def Let_def fq unfolding q using t by auto
    then have "fl x = of_int M * u"
      unfolding fl_pos [OF xpos] e_def [symmetric] u_def [symmetric] by simp
    also have "\<dots> = of_int K" unfolding M using upos by simp
    finally show ?thesis by (simp add: x_def N_def K_def)
  qed
qed

lemma floor_product_div:
  fixes n p :: int and c d :: rat
  assumes n: "0 \<le> n" "n < 2 ^ 31"
    and c: "c = of_int p / 10" and p: "0 < p" "p < 10"
    and d: "0 < d" "d \<le> c" "c - d \<le> d / 2 ^ 54"
  shows "\<lfloor>fl (of_int n * d)\<rfloor> = (p * n) div 10"
proof (cases "(p * n) mod 10 = 0")
  case True
  show ?thesis using floor_product_exact [OF n c p d True] by simp
next
  case False
  have "d < 1" using d(2) p c by simp
  then have "d / 2 ^ 54 \<le> 1 / 2 ^ 54" using d(1) by (intro divide_right_mono) auto
  then have d3: "c - d \<le> 1 / 2 ^ 54" using d(3) by linarith
  show ?thesis using floor_product [OF n c p d(1,2) d3] False by simp
qed

lemma floor_half:
  fixes n :: int
  assumes "0 \<le> n" and "n < 2 ^ 53"
  shows "\<lfloor>fl (of_int n * (1 / 2))\<rfloor> = n div 2"
proof (cases "n = 0")
  case True
  then show ?thesis by (simp add: fl_def)
next
  case False
  then have "0 < n" using assms by simp
  then have h: "fl (of_int n / 2) = of_int n / 2" using assms(2) by (rule fl_half_int)
  have f: "\<lfloor>(of_int n :: rat) / 2\<rfloor> = n div 2"
    using floor_divide_of_int_eq [of n 2, where ?'a = rat] by simp
  have "of_int n * (1 / 2) = (of_int n :: rat) / 2" by simp
  then show ?thesis by (simp only: h f)
qed

text \<open>The literals of \<open>processAttack\<close>.\<close>

lemma lit_values:
  "lit (5 / 10) = 1 / 2"
  "0 < lit (7 / 10) \<and> lit (7 / 10) \<le> 7 / 10 \<and> 7 / 10 - lit (7 / 10) \<le> 1 / 2 ^ 54"
  "0 < lit (6 / 10) \<and> lit (6 / 10) \<le> 6 / 10 \<and> 6 / 10 - lit (6 / 10) \<le> lit (6 / 10) / 2 ^ 54"
  "0 < lit (3 / 10) \<and> lit (3 / 10) \<le> 3 / 10 \<and> 3 / 10 - lit (3 / 10) \<le> lit (3 / 10) / 2 ^ 54"
  "\<bar>lit (8 / 10) - 8 / 10\<bar> \<le> 1 / 2 ^ 54"
  "\<bar>lit (4 / 10) - 4 / 10\<bar> \<le> 1 / 2 ^ 55"
  "0 \<le> lit (4 / 10) \<and> lit (4 / 10) \<le> 1 / 2"
  "0 \<le> lit (8 / 10) \<and> lit (8 / 10) \<le> 1"
  by code_simp+

text \<open>
  The factor \<open>0.8 + Math.random() * 0.4\<close> and the roll, against their exact values.
\<close>

lemma factor_error:
  assumes "0 \<le> r" and "r < 1"
  shows "\<bar>js_add (lit (8 / 10)) (js_mul r (lit (4 / 10))) - (8 / 10 + r * (4 / 10))\<bar> \<le> 1 / 2 ^ 51"
proof -
  define a where "a = lit (8 / 10)"
  define b where "b = lit (4 / 10)"
  define x where "x = r * b"
  define m where "m = fl x"
  define y where "y = a + m"
  have a: "\<bar>a - 8 / 10\<bar> \<le> 1 / 2 ^ 54" "0 \<le> a" "a \<le> 1"
    using lit_values(5,8) by (simp_all add: a_def)
  have b: "\<bar>b - 4 / 10\<bar> \<le> 1 / 2 ^ 55" "0 \<le> b" "b \<le> 1 / 2"
    using lit_values(6,7) by (simp_all add: b_def)
  have x0: "0 \<le> x" using assms(1) b(2) by (simp add: x_def)
  have "r * b \<le> 1 * b" using assms(2) b(2) by (intro mult_right_mono) auto
  then have x1: "x \<le> 1 / 2" using b(3) by (simp add: x_def)
  have "x / 2 ^ 53 \<le> (1 / 2) / 2 ^ 53" using x1 by (intro divide_right_mono) auto
  then have xe: "x / 2 ^ 53 \<le> 1 / 2 ^ 54" by simp
  have m: "\<bar>m - x\<bar> \<le> 1 / 2 ^ 54" using fl_error0 [OF x0] xe unfolding m_def by linarith
  have m0: "0 \<le> m"
  proof -
    have "x / 2 ^ 53 \<le> x" using x0 by (simp add: field_simps)
    then show ?thesis using fl_error0 [OF x0] unfolding m_def by linarith
  qed
  have y0: "0 \<le> y" using a(2) m0 by (simp add: y_def)
  have s54: "(1 :: rat) / 2 ^ 54 \<le> 1 / 2" by simp
  have y2: "y \<le> 2" using a(3) m x1 s54 unfolding y_def by linarith
  have "y / 2 ^ 53 \<le> 2 / 2 ^ 53" using y2 by (intro divide_right_mono) auto
  then have ye: "y / 2 ^ 53 \<le> 1 / 2 ^ 52" by simp
  have f: "\<bar>fl y - y\<bar> \<le> 1 / 2 ^ 52" using fl_error0 [OF y0] ye by linarith
  have "x - r * (4 / 10) = r * (b - 4 / 10)" by (simp add: x_def right_diff_distrib)
  then have "\<bar>x - r * (4 / 10)\<bar> = \<bar>r\<bar> * \<bar>b - 4 / 10\<bar>" by (simp only: abs_mult)
  then have "\<bar>x - r * (4 / 10)\<bar> = r * \<bar>b - 4 / 10\<bar>" using assms(1) by simp
  also have "\<dots> \<le> 1 * \<bar>b - 4 / 10\<bar>" using assms(2) by (intro mult_right_mono) auto
  finally have xr: "\<bar>x - r * (4 / 10)\<bar> \<le> 1 / 2 ^ 55" using b(1) by simp
  have "\<bar>fl y - (8 / 10 + r * (4 / 10))\<bar> \<le> 1 / 2 ^ 52 + 1 / 2 ^ 54 + 1 / 2 ^ 54 + 1 / 2 ^ 55"
    using f a(1) m xr unfolding y_def by linarith
  then have "\<bar>fl y - (8 / 10 + r * (4 / 10))\<bar> \<le> 1 / 2 ^ 51" by simp
  then show ?thesis
    by (simp only: js_add_def js_mul_def y_def m_def x_def a_def b_def)
qed

lemma roll_error:
  fixes p :: int
  assumes "0 \<le> p" and "0 \<le> r" and "r < 1"
  shows "\<bar>js_mul (of_int p) (js_add (lit (8 / 10)) (js_mul r (lit (4 / 10))))
           - of_int p * (8 / 10 + r * (4 / 10))\<bar> \<le> of_int p / 2 ^ 50"
proof -
  define u where "u = js_add (lit (8 / 10)) (js_mul r (lit (4 / 10)))"
  define E where "E = 8 / 10 + r * (4 / 10)"
  define P where "P = (of_int p :: rat)"
  define z where "z = P * u"
  have P0: "0 \<le> P" using assms(1) by (simp add: P_def)
  have ue: "\<bar>u - E\<bar> \<le> 1 / 2 ^ 51" unfolding u_def E_def using assms(2,3) by (rule factor_error)
  have E: "8 / 10 \<le> E" "E \<le> 12 / 10"
  proof -
    have "0 \<le> r * (4 / 10)" using assms(2) by simp
    then show "8 / 10 \<le> E" by (simp add: E_def)
    have "r * (4 / 10) \<le> 1 * (4 / 10)" using assms(3) by (intro mult_right_mono) auto
    then show "E \<le> 12 / 10" by (simp add: E_def)
  qed
  have s51: "(1 :: rat) / 2 ^ 51 \<le> 1 / 2" by simp
  have u0: "0 \<le> u" using ue E(1) s51 by linarith
  have u2: "u \<le> 2" using ue E(2) s51 by linarith
  have z0: "0 \<le> z" using P0 u0 by (simp add: z_def)
  have "P * u \<le> P * 2" using u2 P0 by (intro mult_left_mono) auto
  then have "z / 2 ^ 53 \<le> (P * 2) / 2 ^ 53" unfolding z_def by (intro divide_right_mono) auto
  then have ze: "z / 2 ^ 53 \<le> P / 2 ^ 52" by simp
  have f: "\<bar>fl z - z\<bar> \<le> P / 2 ^ 52" using fl_error0 [OF z0] ze by linarith
  have "z - P * E = P * (u - E)" by (simp add: z_def right_diff_distrib)
  then have "\<bar>z - P * E\<bar> = \<bar>P\<bar> * \<bar>u - E\<bar>" by (simp only: abs_mult)
  then have "\<bar>z - P * E\<bar> = P * \<bar>u - E\<bar>" using P0 by simp
  also have "\<dots> \<le> P * (1 / 2 ^ 51)" using ue P0 by (intro mult_left_mono) auto
  finally have zE: "\<bar>z - P * E\<bar> \<le> P / 2 ^ 51" by simp
  have "\<bar>fl z - P * E\<bar> \<le> P / 2 ^ 52 + P / 2 ^ 51" using f zE by linarith
  moreover have "P / 2 ^ 52 + P / 2 ^ 51 \<le> P / 2 ^ 50" using P0 by simp
  ultimately have "\<bar>fl z - P * E\<bar> \<le> P / 2 ^ 50" by linarith
  then show ?thesis
    unfolding z_def P_def E_def u_def by (simp only: js_mul_def)
qed

lemma factor_range:
  assumes "0 \<le> r" and "r < 1" and "fl r = r"
  shows "8 / 10 \<le> js_add (lit (8 / 10)) (js_mul r (lit (4 / 10)))
       \<and> js_add (lit (8 / 10)) (js_mul r (lit (4 / 10))) \<le> 12 / 10"
  using rollFactor_range [OF assms] by (simp only: rollFactor_def)

text \<open>The troop counts of the two branches of the combat, as integer quotients.\<close>

lemma troops_moved:
  fixes n :: int
  assumes "1 < n" and "n < 2 ^ 31"
  shows "(7 * n) div 10 - 1 \<le> \<lfloor>js_mul (of_int n) (lit (7 / 10))\<rfloor>
       \<and> \<lfloor>js_mul (of_int n) (lit (7 / 10))\<rfloor> \<le> (7 * n) div 10
       \<and> ((7 * n) mod 10 \<noteq> 0 \<longrightarrow> \<lfloor>js_mul (of_int n) (lit (7 / 10))\<rfloor> = (7 * n) div 10)
       \<and> 0 \<le> \<lfloor>js_mul (of_int n) (lit (7 / 10))\<rfloor>
       \<and> \<lfloor>js_mul (of_int n) (lit (7 / 10))\<rfloor> < 2 ^ 31"
proof -
  have n0: "0 \<le> n" using assms(1) by simp
  have c: "(7 / 10 :: rat) = of_int 7 / 10" by simp
  have l: "0 < lit (7 / 10)" "lit (7 / 10) \<le> 7 / 10" "7 / 10 - lit (7 / 10) \<le> 1 / 2 ^ 54"
    using lit_values(2) by simp_all
  define m where "m = \<lfloor>js_mul (of_int n) (lit (7 / 10))\<rfloor>"
  have fp: "(7 * n) div 10 - 1 \<le> m" "m \<le> (7 * n) div 10"
    "(7 * n) mod 10 \<noteq> 0 \<longrightarrow> m = (7 * n) div 10"
    using floor_product [OF n0 assms(2) c _ _ l] unfolding m_def js_mul_def by simp_all
  have lo: "1 \<le> (7 * n) div 10" using assms(1) by linarith
  have "n < 2147483648" using assms(2) by simp
  then have hi: "(7 * n) div 10 < 2147483648" by linarith
  have "0 \<le> m" using fp(1) lo by linarith
  moreover have "m < 2 ^ 31" using fp(2) hi by simp
  ultimately show ?thesis using fp unfolding m_def by blast
qed

lemma troops_surviving:
  fixes n :: int
  assumes "0 \<le> n" and "n < 2 ^ 31"
  shows "\<lfloor>js_mul (of_int n) (lit (6 / 10))\<rfloor> = (6 * n) div 10"
proof -
  have c: "(6 / 10 :: rat) = of_int 6 / 10" by simp
  have l: "0 < lit (6 / 10)" "lit (6 / 10) \<le> 6 / 10"
    "6 / 10 - lit (6 / 10) \<le> lit (6 / 10) / 2 ^ 54"
    using lit_values(3) by simp_all
  show ?thesis
    using floor_product_div [OF assms c _ _ l] unfolding js_mul_def by simp
qed

lemma troops_lost_defending:
  fixes n :: int
  assumes "0 \<le> n" and "n < 2 ^ 31"
  shows "\<lfloor>js_mul (of_int n) (lit (3 / 10))\<rfloor> = (3 * n) div 10"
proof -
  have c: "(3 / 10 :: rat) = of_int 3 / 10" by simp
  have l: "0 < lit (3 / 10)" "lit (3 / 10) \<le> 3 / 10"
    "3 / 10 - lit (3 / 10) \<le> lit (3 / 10) / 2 ^ 54"
    using lit_values(4) by simp_all
  show ?thesis
    using floor_product_div [OF assms c _ _ l] unfolding js_mul_def by simp
qed

lemma troops_lost_attacking:
  fixes n :: int
  assumes "0 \<le> n" and "n < 2 ^ 31"
  shows "\<lfloor>js_mul (of_int n) (lit (5 / 10))\<rfloor> = n div 2"
proof -
  have "n < 2 ^ 53" using assms(2) by simp
  then show ?thesis
    using floor_half [OF assms(1)] unfolding js_mul_def lit_values(1) by simp
qed

subsection \<open>Auxiliary facts about the engine\<close>

lemma territory_at_update:
  "territory_at (ts[k := v]) i =
     (if 0 \<le> i \<and> nat i = k \<and> k < length ts then Some v else territory_at ts i)"
  by (auto simp: territory_at_def)

lemma territories_checkWinCondition [simp]:
  "territories (checkWinCondition s) = territories s"
  by (simp add: checkWinCondition_def Let_def)

lemma territories_updatePlayerStats [simp]:
  "territories (updatePlayerStats s) = territories s"
  by (simp add: updatePlayerStats_def)

lemma players_checkWinCondition [simp]:
  "players (checkWinCondition s) = players s"
  by (simp add: checkWinCondition_def Let_def)

lemma alive_indices:
  "map (\<lambda>i. ps ! i) (filter (\<lambda>i. P (ps ! i)) [0..<length ps]) = filter P ps"
proof -
  have "filter P (map (nth ps) [0..<length ps])
          = map (nth ps) (filter (P \<circ> nth ps) [0..<length ps])"
    by (rule filter_map)
  then show ?thesis by (simp add: map_nth comp_def)
qed

lemma skipDead_keeps:
  "skipDead s a = Inr s' \<Longrightarrow>
     gamePhase s' = gamePhase s \<and> winner s' = winner s \<and> territories s' = territories s
     \<and> players s' = players s"
proof (induction s a rule: skipDead.induct)
  case (1 s attempts)
  then show ?case
    by (subst (asm) skipDead.simps) (auto split: option.splits if_splits)
qed

lemma updatePlayerStats_turn:
  "updatePlayerStats (s\<lparr>currentTurn := n\<rparr>) = (updatePlayerStats s)\<lparr>currentTurn := n\<rparr>"
  by (simp add: updatePlayerStats_def)

lemma checkWinCondition_turn:
  "checkWinCondition (s\<lparr>currentTurn := n\<rparr>) = (checkWinCondition s)\<lparr>currentTurn := n\<rparr>"
  by (simp add: checkWinCondition_def Let_def)

text \<open>\<open>processAttack\<close> reads neither the turn counter nor the phase.\<close>

lemma processAttack_turn_irrelevant:
  "processAttack (s\<lparr>currentTurn := n\<rparr>) fromId toId playerId r1 r2
     = (fst (processAttack s fromId toId playerId r1 r2),
        (snd (processAttack s fromId toId playerId r1 r2))\<lparr>currentTurn := n\<rparr>)"
proof (cases "territory_at (territories s) fromId")
  case None
  then show ?thesis by (simp add: processAttack_def)
next
  case f: (Some f)
  show ?thesis
  proof (cases "territory_at (territories s) toId")
    case None
    then show ?thesis using f by (simp add: processAttack_def)
  next
    case (Some t)
    have sw: "s\<lparr>currentTurn := n, territories := ts\<rparr>
                = (s\<lparr>territories := ts\<rparr>)\<lparr>currentTurn := n\<rparr>" for ts
      by simp
    show ?thesis using f Some
      unfolding processAttack_def Let_def
      by (simp only: sw updatePlayerStats_turn checkWinCondition_turn) simp
  qed
qed

lemma processAttack_phase_irrelevant:
  "fst (processAttack (s\<lparr>gamePhase := ph\<rparr>) fromId toId playerId r1 r2)
     = fst (processAttack s fromId toId playerId r1 r2)
   \<and> territories (snd (processAttack (s\<lparr>gamePhase := ph\<rparr>) fromId toId playerId r1 r2))
     = territories (snd (processAttack s fromId toId playerId r1 r2))"
proof (cases "territory_at (territories s) fromId")
  case None
  then show ?thesis by (simp add: processAttack_def)
next
  case f: (Some f)
  show ?thesis
  proof (cases "territory_at (territories s) toId")
    case None
    then show ?thesis using f by (simp add: processAttack_def)
  next
    case (Some t)
    then show ?thesis using f by (simp add: processAttack_def Let_def)
  qed
qed

text \<open>What \<open>checkWinCondition\<close> does, in terms of the players that are alive.\<close>

lemma checkWinCondition_cases:
  "let s' = checkWinCondition s; alive = filter isAlive (players s)
   in players s' = players s
    \<and> (length alive = 1 \<longrightarrow> gamePhase s' = ''ended'' \<and> winnerPlayer s' = Some (alive ! 0))
    \<and> (length alive = 0 \<longrightarrow> gamePhase s' = ''ended'' \<and> winner s' = None)
    \<and> (1 < length alive \<longrightarrow> gamePhase s' = gamePhase s \<and> winner s' = winner s)"
proof -
  let ?idx = "filter (\<lambda>i. isAlive (players s ! i)) [0..<length (players s)]"
  have m: "map (\<lambda>i. players s ! i) ?idx = filter isAlive (players s)"
    by (rule alive_indices)
  then have len: "length ?idx = length (filter isAlive (players s))"
    by (metis length_map)
  have hd: "length ?idx = 1 \<Longrightarrow> players s ! (?idx ! 0) = filter isAlive (players s) ! 0"
    using m by (metis nth_map zero_less_one)
  show ?thesis
    using len hd
    by (auto simp: checkWinCondition_def Let_def winnerPlayer_def)
qed

text \<open>An accepted attack ends with the recomputation of the aggregates and the win check.\<close>

lemma processAttack_success_shape:
  assumes "success (fst (processAttack s fromId toId playerId r1 r2))"
  shows "\<exists>ts. snd (processAttack s fromId toId playerId r1 r2)
               = checkWinCondition (updatePlayerStats (s\<lparr>territories := ts\<rparr>))"
proof (cases "territory_at (territories s) fromId")
  case None
  then show ?thesis using assms by (simp add: processAttack_def)
next
  case f: (Some f)
  show ?thesis
  proof (cases "territory_at (territories s) toId")
    case None
    then show ?thesis using f assms by (simp add: processAttack_def)
  next
    case (Some t)
    then show ?thesis using f assms
      by (auto simp: processAttack_def Let_def split: if_splits)
  qed
qed

lemma processAttack_failure_shape:
  assumes "\<not> success (fst (processAttack s fromId toId playerId r1 r2))"
  shows "snd (processAttack s fromId toId playerId r1 r2) = s"
proof (cases "territory_at (territories s) fromId")
  case None
  then show ?thesis by (simp add: processAttack_def)
next
  case f: (Some f)
  show ?thesis
  proof (cases "territory_at (territories s) toId")
    case None
    then show ?thesis using f by (simp add: processAttack_def)
  next
    case (Some t)
    then show ?thesis using f assms
      by (auto simp: processAttack_def Let_def split: if_splits)
  qed
qed

lemma updatePlayerStats_recomputes:
  "list_all (\<lambda>p. isAlive p = (0 < length (ownedBy (pid p) (territories s)))
                \<and> territoriesOwned p = length (ownedBy (pid p) (territories s))
                \<and> totalTroops p = sum_list (map troops (ownedBy (pid p) (territories s))))
            (players (updatePlayerStats s))"
  by (simp add: updatePlayerStats_def list_all_iff)

lemma updatePlayerStats_keeps [simp]:
  "gamePhase (updatePlayerStats s) = gamePhase s" "winner (updatePlayerStats s) = winner s"
  by (simp_all add: updatePlayerStats_def)

text \<open>
  Which players own a territory depends on the ids of the roster and on the owners of the
  territories alone.
\<close>

lemma ownedBy_owners:
  "length (ownedBy p ts) = length (filter (\<lambda>w. w = Some p) (map owner ts))"
  by (simp add: ownedBy_def filter_map comp_def)

lemma ownersAlive_cong:
  assumes "map pid (players s') = map pid (players s)"
    and "map owner (territories s') = map owner (territories s)"
  shows "ownersAlive s' = ownersAlive s"
proof -
  have len: "length (players s') = length (players s)"
    using assms(1) by (metis length_map)
  have "pid (players s' ! i) = pid (players s ! i)" if "i < length (players s)" for i
    using assms(1) that len by (metis nth_map)
  then show ?thesis
    unfolding ownersAlive_def ownedBy_owners assms(2) len
    by (intro filter_cong) auto
qed

lemma winConditionHolds_cong:
  assumes "map pid (players s') = map pid (players s)"
    and "map owner (territories s') = map owner (territories s)"
    and "gamePhase s' = gamePhase s" and "winner s' = winner s"
  shows "winConditionHolds s' = winConditionHolds s"
  unfolding winConditionHolds_def ownersAlive_cong [OF assms(1,2)] assms(3,4) ..

lemma fresh_flags:
  assumes "list_all (\<lambda>p. isAlive p = (0 < length (ownedBy (pid p) (territories s)))) (players s)"
  shows "filter (\<lambda>i. isAlive (players s ! i)) [0..<length (players s)] = ownersAlive s"
  unfolding ownersAlive_def using assms
  by (intro filter_cong) (auto simp: list_all_iff)

text \<open>
  \<open>nextTurn\<close> changes the turn counter, the start time and the troops; it recomputes the
  aggregates and \<open>isAlive\<close>, and leaves owners, ids, phase and winner alone.
\<close>

lemma nextTurn_keeps:
  assumes "nextTurn s now = Inr s''"
  shows "gamePhase s'' = gamePhase s" "winner s'' = winner s"
    "map owner (territories s'') = map owner (territories s)"
    "map pid (players s'') = map pid (players s)"
    "list_all (\<lambda>p. isAlive p = (0 < length (ownedBy (pid p) (territories s'')))) (players s'')"
proof -
  from assms obtain s1 where
    s1: "skipDead (generateTroops (s\<lparr>currentTurn := currentTurn s + 1, turnStartTime := now\<rparr>)) 0
           = Inr s1"
    and s'': "s'' = updatePlayerStats s1"
    by (auto simp: nextTurn_def split: sum.splits)
  note k = skipDead_keeps [OF s1]
  show "gamePhase s'' = gamePhase s" "winner s'' = winner s"
    using k s'' by (simp_all add: generateTroops_def)
  show "map owner (territories s'') = map owner (territories s)"
    using k s'' by (simp add: generateTroops_def comp_def)
  show "map pid (players s'') = map pid (players s)"
    using k s'' by (simp add: generateTroops_def updatePlayerStats_def comp_def)
  show "list_all (\<lambda>p. isAlive p = (0 < length (ownedBy (pid p) (territories s'')))) (players s'')"
    unfolding s'' using updatePlayerStats_recomputes [of s1] by (simp add: list_all_iff)
qed

text \<open>The win check, run on fresh flags, establishes the win condition.\<close>

lemma checkWinCondition_establishes:
  assumes "list_all (\<lambda>p. isAlive p = (0 < length (ownedBy (pid p) (territories s)))) (players s)"
  shows "winConditionHolds (checkWinCondition s)"
proof -
  have o: "ownersAlive (checkWinCondition s) = ownersAlive s"
    by (intro ownersAlive_cong) simp_all
  show ?thesis
    unfolding winConditionHolds_def o
    unfolding fresh_flags [OF assms, symmetric]
    by (simp add: checkWinCondition_def Let_def)
qed

lemma processAttack_establishes:
  assumes "success (fst (processAttack s fromId toId playerId r1 r2))"
  shows "winConditionHolds (snd (processAttack s fromId toId playerId r1 r2))"
proof -
  obtain ts where sh: "snd (processAttack s fromId toId playerId r1 r2)
               = checkWinCondition (updatePlayerStats (s\<lparr>territories := ts\<rparr>))"
    using assms processAttack_success_shape by blast
  have "list_all (\<lambda>p. isAlive p = (0 < length (ownedBy (pid p)
           (territories (updatePlayerStats (s\<lparr>territories := ts\<rparr>))))))
         (players (updatePlayerStats (s\<lparr>territories := ts\<rparr>)))"
    using updatePlayerStats_recomputes [of "s\<lparr>territories := ts\<rparr>"] by (simp add: list_all_iff)
  then show ?thesis unfolding sh by (rule checkWinCondition_establishes)
qed

text \<open>With fresh flags, the win condition reads on the flags as the claim words it.\<close>

lemma winConditionHolds_flags:
  assumes "list_all (\<lambda>p. isAlive p = (0 < length (ownedBy (pid p) (territories s)))) (players s)"
    and "winConditionHolds s"
  shows "(length (filter isAlive (players s)) = 1
            \<longrightarrow> gamePhase s = ''ended'' \<and> winnerPlayer s = Some (filter isAlive (players s) ! 0))
       \<and> (length (filter isAlive (players s)) = 0 \<longrightarrow> gamePhase s = ''ended'' \<and> winner s = None)"
proof -
  let ?idx = "filter (\<lambda>i. isAlive (players s ! i)) [0..<length (players s)]"
  have i: "?idx = ownersAlive s" using assms(1) by (rule fresh_flags)
  have m: "map (\<lambda>i. players s ! i) ?idx = filter isAlive (players s)"
    by (rule alive_indices)
  then have len: "length (ownersAlive s) = length (filter isAlive (players s))"
    unfolding i by (metis length_map)
  have hd: "length (ownersAlive s) = 1 \<Longrightarrow>
              players s ! (ownersAlive s ! 0) = filter isAlive (players s) ! 0"
    using m unfolding i by (metis nth_map zero_less_one)
  show ?thesis
    using assms(2) len hd unfolding winConditionHolds_def
    by (auto simp: winnerPlayer_def)
qed

subsection \<open>Combat resolution\<close>

text \<open>
  Claim C1, as stated, fails when its products are read as products of numbers: the code
  computes them in binary64. Of 90 troops that conquer, 62 leave and 28 stay, where
  \<open>floor(90 * 0.7)\<close> is 63. And with seven troops against seven and the draws \<open>5/8\<close> and
  \<open>1/4\<close>, the attack roll \<open>6 * 1.05\<close> and the defense roll \<open>7 * 0.9\<close> of the claim are
  equal, so that the defender would hold; the rounded attack roll of the code is the
  greater, and the attack conquers.
\<close>

theorem processAttack_exact_arithmetic_counterexample:
  "validateAttack (territory_at (territories siege) 0) (territory_at (territories siege) 1) ''a''
   \<and> fl (1 / 2) = 1 / 2
   \<and> \<lfloor>(of_int 90 :: rat) * (7 / 10)\<rfloor> = 63
   \<and> fst (processAttack siege 0 1 ''a'' (1 / 2) (1 / 2)) = Success True 25 3 0 1
   \<and> map troops (territories (snd (processAttack siege 0 1 ''a'' (1 / 2) (1 / 2)))) = [28, 37]
   \<and> validateAttack (territory_at (territories standoff) 0) (territory_at (territories standoff) 1) ''a''
   \<and> fl (5 / 8) = 5 / 8 \<and> fl (1 / 4) = 1 / 4
   \<and> (of_int (7 - 1) :: rat) * (8 / 10 + 5 / 8 * (4 / 10)) = of_int 7 * (8 / 10 + 1 / 4 * (4 / 10))
   \<and> fst (processAttack standoff 0 1 ''a'' (5 / 8) (1 / 4)) = Success True 2 7 0 1
   \<and> map owner (territories (snd (processAttack standoff 0 1 ''a'' (5 / 8) (1 / 4))))
       = [Some ''a'', Some ''a'']"
  by code_simp

text \<open>
  Claim C1, amended. For a valid attack (\<open>from\<close> owned by \<open>playerId\<close>, \<open>to\<close> not, more
  than one troop in \<open>from\<close>, \<open>to\<close> adjacent to \<open>from\<close>), let \<open>u1\<close>, \<open>u2\<close> be the binary64
  values of \<open>0.8 + Math.random() * 0.4\<close> for the two draws \<open>r1\<close>, \<open>r2\<close>, the attack roll
  the binary64 product \<open>(fromTroops - 1) * u1\<close> and the defense roll the binary64 product
  \<open>toTroops * u2\<close>. If the attack roll is the greater, \<open>moved\<close>, the floor of the binary64
  product \<open>fromTroops * 0.7\<close>, troops leave \<open>from\<close>, \<open>to\<close> goes to the attacker with
  \<open>max(1, floor(moved * 0.6))\<close> troops, and the result reports \<open>conquered\<close>, attacker
  losses \<open>moved - survivors\<close> and defender losses the prior troops of \<open>to\<close>; otherwise
  \<open>from\<close> loses \<open>floor((fromTroops - 1) * 0.5)\<close>, \<open>to\<close> loses \<open>floor(toTroops * 0.3)\<close> but
  keeps at least one troop, and no owner changes. With both factors 1, ten troops against
  three conquer, with defender losses 3.

  Against exact arithmetic: for draws in \<open>[0, 1)\<close> each factor is within \<open>2^-51\<close> of
  \<open>0.8 + 0.4 r\<close> and each roll within \<open>troops * 2^-50\<close> of the exact product, and for a
  draw that \<open>Math.random()\<close> can return (a binary64 number) the factor lies in
  \<open>[0.8, 1.2]\<close>. With fewer than \<open>2^31\<close> troops, \<open>moved\<close> is \<open>floor(7 * fromTroops / 10)\<close>
  or one less, and equal to it unless \<open>fromTroops\<close> is a multiple of 10; the survivors
  are \<open>max(1, floor(6 * moved / 10))\<close>, the losses of a failed attack
  \<open>floor((fromTroops - 1) / 2)\<close> and \<open>floor(3 * toTroops / 10)\<close>.
\<close>

theorem processAttack_resolves_combat:
  assumes f: "territory_at (territories s) fromId = Some from"
    and t: "territory_at (territories s) toId = Some to"
    and own: "owner from = Some playerId"
    and other: "owner to \<noteq> Some playerId"
    and tr: "1 < troops from"
    and adj: "isAdjacentTo from (tid to)"
  shows "(let u1 = js_add (lit (8 / 10)) (js_mul r1 (lit (4 / 10)));
              u2 = js_add (lit (8 / 10)) (js_mul r2 (lit (4 / 10)));
              attackRoll = js_mul (of_int (troops from - 1)) u1;
              defenseRoll = js_mul (of_int (troops to)) u2;
              moved = \<lfloor>js_mul (of_int (troops from)) (lit (7 / 10))\<rfloor>;
              survivors = max 1 \<lfloor>js_mul (of_int moved) (lit (6 / 10))\<rfloor>;
              lostA = \<lfloor>js_mul (of_int (troops from - 1)) (lit (5 / 10))\<rfloor>;
              lostD = \<lfloor>js_mul (of_int (troops to)) (lit (3 / 10))\<rfloor>;
              res = fst (processAttack s fromId toId playerId r1 r2);
              s' = snd (processAttack s fromId toId playerId r1 r2)
          in (if attackRoll > defenseRoll
              then res = Success True (moved - survivors) (troops to) fromId toId
                 \<and> territory_at (territories s') fromId
                     = Some (from\<lparr>troops := troops from - moved\<rparr>)
                 \<and> territory_at (territories s') toId
                     = Some (to\<lparr>owner := Some playerId, troops := survivors\<rparr>)
              else res = Success False lostA lostD fromId toId
                 \<and> territory_at (territories s') fromId
                     = Some (from\<lparr>troops := troops from - lostA\<rparr>)
                 \<and> territory_at (territories s') toId
                     = Some (to\<lparr>troops := max 1 (troops to - lostD)\<rparr>))
            \<and> (u1 = 1 \<and> u2 = 1 \<and> troops from = 10 \<and> troops to = 3
                 \<longrightarrow> r_conquered res \<and> r_defenderLosses res = 3
                     \<and> territory_at (territories s') toId
                         = Some (to\<lparr>owner := Some playerId, troops := 4\<rparr>))
            \<and> (0 \<le> r1 \<and> r1 < 1
                 \<longrightarrow> \<bar>u1 - (8 / 10 + r1 * (4 / 10))\<bar> \<le> 1 / 2 ^ 51
                     \<and> \<bar>attackRoll - of_int (troops from - 1) * (8 / 10 + r1 * (4 / 10))\<bar>
                         \<le> of_int (troops from - 1) / 2 ^ 50)
            \<and> (0 \<le> r2 \<and> r2 < 1 \<and> 0 \<le> troops to
                 \<longrightarrow> \<bar>u2 - (8 / 10 + r2 * (4 / 10))\<bar> \<le> 1 / 2 ^ 51
                     \<and> \<bar>defenseRoll - of_int (troops to) * (8 / 10 + r2 * (4 / 10))\<bar>
                         \<le> of_int (troops to) / 2 ^ 50)
            \<and> (0 \<le> r1 \<and> r1 < 1 \<and> fl r1 = r1 \<longrightarrow> 8 / 10 \<le> u1 \<and> u1 \<le> 12 / 10)
            \<and> (0 \<le> r2 \<and> r2 < 1 \<and> fl r2 = r2 \<longrightarrow> 8 / 10 \<le> u2 \<and> u2 \<le> 12 / 10)
            \<and> (troops from < 2 ^ 31
                 \<longrightarrow> (7 * troops from) div 10 - 1 \<le> moved \<and> moved \<le> (7 * troops from) div 10
                     \<and> ((7 * troops from) mod 10 \<noteq> 0 \<longrightarrow> moved = (7 * troops from) div 10)
                     \<and> survivors = max 1 ((6 * moved) div 10)
                     \<and> lostA = (troops from - 1) div 2)
            \<and> (0 \<le> troops to \<and> troops to < 2 ^ 31 \<longrightarrow> lostD = (3 * troops to) div 10))"
proof -
  define u1 where "u1 = js_add (lit (8 / 10)) (js_mul r1 (lit (4 / 10)))"
  define u2 where "u2 = js_add (lit (8 / 10)) (js_mul r2 (lit (4 / 10)))"
  define attackRoll where "attackRoll = js_mul (of_int (troops from - 1)) u1"
  define defenseRoll where "defenseRoll = js_mul (of_int (troops to)) u2"
  define moved where "moved = \<lfloor>js_mul (of_int (troops from)) (lit (7 / 10))\<rfloor>"
  define survivors where "survivors = max 1 \<lfloor>js_mul (of_int moved) (lit (6 / 10))\<rfloor>"
  define lostA where "lostA = \<lfloor>js_mul (of_int (troops from - 1)) (lit (5 / 10))\<rfloor>"
  define lostD where "lostD = \<lfloor>js_mul (of_int (troops to)) (lit (3 / 10))\<rfloor>"
  define res where "res = fst (processAttack s fromId toId playerId r1 r2)"
  define s' where "s' = snd (processAttack s fromId toId playerId r1 r2)"
  note defs = u1_def u2_def attackRoll_def defenseRoll_def moved_def survivors_def lostA_def
    lostD_def res_def s'_def
  have ne: "fromId \<noteq> toId" using f t own other by auto
  have v: "validateAttack (Some from) (Some to) playerId"
    using own other tr adj by (simp add: validateAttack_def)
  have fi: "0 \<le> fromId" "nat fromId < length (territories s)" "territories s ! nat fromId = from"
    using f by (auto simp: territory_at_def split: if_splits)
  have ti: "0 \<le> toId" "nat toId < length (territories s)" "territories s ! nat toId = to"
    using t by (auto simp: territory_at_def split: if_splits)
  have nn: "nat fromId \<noteq> nat toId" using ne fi ti by auto
  have n9: "js_mul (of_int (10 - 1)) 1 > js_mul (of_int 3) 1" by code_simp
  have n7: "\<lfloor>js_mul (of_int 10) (lit (7 / 10))\<rfloor> = 7" by code_simp
  have n4: "max 1 \<lfloor>js_mul (of_int 7) (lit (6 / 10))\<rfloor> = 4" by code_simp
  have branches:
    "if attackRoll > defenseRoll
     then res = Success True (moved - survivors) (troops to) fromId toId
        \<and> territory_at (territories s') fromId = Some (from\<lparr>troops := troops from - moved\<rparr>)
        \<and> territory_at (territories s') toId
            = Some (to\<lparr>owner := Some playerId, troops := survivors\<rparr>)
     else res = Success False lostA lostD fromId toId
        \<and> territory_at (territories s') fromId = Some (from\<lparr>troops := troops from - lostA\<rparr>)
        \<and> territory_at (territories s') toId
            = Some (to\<lparr>troops := max 1 (troops to - lostD)\<rparr>)"
    unfolding defs processAttack_def rollFactor_def
    using v nn fi ti ne own
    by (auto simp: f t territory_at_update Let_def)
  have example:
    "u1 = 1 \<and> u2 = 1 \<and> troops from = 10 \<and> troops to = 3
       \<longrightarrow> r_conquered res \<and> r_defenderLosses res = 3
           \<and> territory_at (territories s') toId = Some (to\<lparr>owner := Some playerId, troops := 4\<rparr>)"
  proof
    assume a: "u1 = 1 \<and> u2 = 1 \<and> troops from = 10 \<and> troops to = 3"
    then have "attackRoll > defenseRoll" using n9 by (simp add: attackRoll_def defenseRoll_def)
    moreover have "survivors = 4" using a n7 n4 by (simp add: survivors_def moved_def)
    ultimately show "r_conquered res \<and> r_defenderLosses res = 3
           \<and> territory_at (territories s') toId = Some (to\<lparr>owner := Some playerId, troops := 4\<rparr>)"
      using branches a by simp
  qed
  have p0: "0 \<le> troops from - 1" using tr by simp
  have err1: "0 \<le> r1 \<and> r1 < 1
       \<longrightarrow> \<bar>u1 - (8 / 10 + r1 * (4 / 10))\<bar> \<le> 1 / 2 ^ 51
           \<and> \<bar>attackRoll - of_int (troops from - 1) * (8 / 10 + r1 * (4 / 10))\<bar>
               \<le> of_int (troops from - 1) / 2 ^ 50"
    unfolding attackRoll_def u1_def
    using factor_error [of r1] roll_error [OF p0, of r1] by blast
  have err2: "0 \<le> r2 \<and> r2 < 1 \<and> 0 \<le> troops to
       \<longrightarrow> \<bar>u2 - (8 / 10 + r2 * (4 / 10))\<bar> \<le> 1 / 2 ^ 51
           \<and> \<bar>defenseRoll - of_int (troops to) * (8 / 10 + r2 * (4 / 10))\<bar>
               \<le> of_int (troops to) / 2 ^ 50"
    unfolding defenseRoll_def u2_def
    using factor_error [of r2] roll_error [of "troops to" r2] by blast
  have rng1: "0 \<le> r1 \<and> r1 < 1 \<and> fl r1 = r1 \<longrightarrow> 8 / 10 \<le> u1 \<and> u1 \<le> 12 / 10"
    unfolding u1_def using factor_range [of r1] by blast
  have rng2: "0 \<le> r2 \<and> r2 < 1 \<and> fl r2 = r2 \<longrightarrow> 8 / 10 \<le> u2 \<and> u2 \<le> 12 / 10"
    unfolding u2_def using factor_range [of r2] by blast
  have counts: "troops from < 2 ^ 31
       \<longrightarrow> (7 * troops from) div 10 - 1 \<le> moved \<and> moved \<le> (7 * troops from) div 10
           \<and> ((7 * troops from) mod 10 \<noteq> 0 \<longrightarrow> moved = (7 * troops from) div 10)
           \<and> survivors = max 1 ((6 * moved) div 10)
           \<and> lostA = (troops from - 1) div 2"
  proof
    assume b: "troops from < 2 ^ 31"
    note m = troops_moved [OF tr b, folded moved_def]
    have sv: "survivors = max 1 ((6 * moved) div 10)"
      unfolding survivors_def using troops_surviving [of moved] m by simp
    have "troops from - 1 < 2 ^ 31" using b by simp
    then have la: "lostA = (troops from - 1) div 2"
      unfolding lostA_def using troops_lost_attacking [OF p0] by blast
    show "(7 * troops from) div 10 - 1 \<le> moved \<and> moved \<le> (7 * troops from) div 10
           \<and> ((7 * troops from) mod 10 \<noteq> 0 \<longrightarrow> moved = (7 * troops from) div 10)
           \<and> survivors = max 1 ((6 * moved) div 10)
           \<and> lostA = (troops from - 1) div 2"
      using m sv la by blast
  qed
  have ld: "0 \<le> troops to \<and> troops to < 2 ^ 31 \<longrightarrow> lostD = (3 * troops to) div 10"
    unfolding lostD_def using troops_lost_defending [of "troops to"] by blast
  show ?thesis
    unfolding Let_def defs [symmetric]
    using branches example err1 err2 rng1 rng2 counts ld by blast
qed

theorem processAttack_resolves_combat_witness:
  "territory_at (territories duel) 0 = Some (ex_territory 0 (Some ''a'') 10 [1])
   \<and> territory_at (territories duel) 1 = Some (ex_territory 1 (Some ''b'') 3 [0])
   \<and> fl (1 / 2) = 1 / 2
   \<and> js_add (lit (8 / 10)) (js_mul (1 / 2) (lit (4 / 10))) = 1
   \<and> r_conquered (fst (processAttack duel 0 1 ''a'' (1 / 2) (1 / 2)))
   \<and> r_defenderLosses (fst (processAttack duel 0 1 ''a'' (1 / 2) (1 / 2))) = 3
   \<and> territory_at (territories (snd (processAttack duel 0 1 ''a'' (1 / 2) (1 / 2)))) 1
       = Some (ex_territory 1 (Some ''a'') 4 [0])
   \<and> js_mul (of_int (10 - 1)) (js_add (lit (8 / 10)) (js_mul (1 / 2) (lit (4 / 10)))) = 9
   \<and> \<lfloor>js_mul (of_int 10) (lit (7 / 10))\<rfloor> = (7 * 10) div 10"
proof -
  have h1: "territory_at (territories duel) 0 = Some (ex_territory 0 (Some ''a'') 10 [1])"
    by code_simp
  have h2: "territory_at (territories duel) 1 = Some (ex_territory 1 (Some ''b'') 3 [0])"
    by code_simp
  have h3: "owner (ex_territory 0 (Some ''a'') 10 [1]) = Some ''a''"
    by (simp add: ex_territory_def)
  have h4: "owner (ex_territory 1 (Some ''b'') 3 [0]) \<noteq> Some ''a''"
    by (simp add: ex_territory_def)
  have h5: "1 < troops (ex_territory 0 (Some ''a'') 10 [1])"
    by (simp add: ex_territory_def)
  have h6: "isAdjacentTo (ex_territory 0 (Some ''a'') 10 [1]) (tid (ex_territory 1 (Some ''b'') 3 [0]))"
    by (simp add: ex_territory_def isAdjacentTo_def)
  have r: "js_add (lit (8 / 10)) (js_mul (1 / 2) (lit (4 / 10))) = 1" by code_simp
  have d: "fl (1 / 2) = 1 / 2" by code_simp
  have n: "js_mul (of_int (10 - 1)) 1 = 9" by code_simp
  have m: "\<lfloor>js_mul (of_int 10) (lit (7 / 10))\<rfloor> = 7" by code_simp
  show ?thesis
    using processAttack_resolves_combat [OF h1 h2 h3 h4 h5 h6, of "1 / 2" "1 / 2"] h1 h2 d n m
    unfolding r
    by (simp add: Let_def ex_territory_def)
qed

subsection \<open>Rejected attacks\<close>

text \<open>
  Claim C2. An attack request that breaks a rule of validation (\<open>fromId\<close> or \<open>toId\<close> names
  no territory, \<open>from\<close> is not owned by \<open>playerId\<close>, \<open>to\<close> is owned by \<open>playerId\<close>, \<open>from\<close>
  has at most one troop, or \<open>to\<close> is not adjacent to \<open>from\<close>) gets the failure result, and
  the whole state is as before.
\<close>

theorem processAttack_invalid_no_change:
  assumes "territory_at (territories s) fromId = None
         \<or> territory_at (territories s) toId = None
         \<or> (\<exists>f t. territory_at (territories s) fromId = Some f
                \<and> territory_at (territories s) toId = Some t
                \<and> (owner f \<noteq> Some playerId \<or> owner t = Some playerId \<or> troops f \<le> 1
                     \<or> \<not> isAdjacentTo f (tid t)))"
  shows "processAttack s fromId toId playerId r1 r2 = (Failure ''Invalid attack'', s)
       \<and> \<not> success (fst (processAttack s fromId toId playerId r1 r2))"
  using assms
  by (auto simp: processAttack_def validateAttack_def split: option.splits)

theorem processAttack_invalid_no_change_witness:
  "territory_at (territories duel) 7 = None
   \<and> processAttack duel 7 1 ''a'' (1 / 2) (1 / 2) = (Failure ''Invalid attack'', duel)
   \<and> troops (ex_territory 1 (Some ''b'') 1 [0]) \<le> 1
   \<and> processAttack
        (ex_state [ex_territory 0 (Some ''a'') 10 [1], ex_territory 1 (Some ''b'') 1 [0]]
                  [ex_player ''a'', ex_player ''b''])
        1 0 ''b'' (1 / 2) (1 / 2)
       = (Failure ''Invalid attack'',
          ex_state [ex_territory 0 (Some ''a'') 10 [1], ex_territory 1 (Some ''b'') 1 [0]]
                   [ex_player ''a'', ex_player ''b''])"
proof -
  let ?s = "ex_state [ex_territory 0 (Some ''a'') 10 [1], ex_territory 1 (Some ''b'') 1 [0]]
                     [ex_player ''a'', ex_player ''b'']"
  have h1: "territory_at (territories duel) 7 = None" by code_simp
  have f: "territory_at (territories ?s) 1 = Some (ex_territory 1 (Some ''b'') 1 [0])"
    by code_simp
  have t: "territory_at (territories ?s) 0 = Some (ex_territory 0 (Some ''a'') 10 [1])"
    by code_simp
  have low: "troops (ex_territory 1 (Some ''b'') 1 [0]) \<le> 1"
    by (simp add: ex_territory_def)
  have h2: "territory_at (territories ?s) 1 = None
         \<or> territory_at (territories ?s) 0 = None
         \<or> (\<exists>f t. territory_at (territories ?s) 1 = Some f
                \<and> territory_at (territories ?s) 0 = Some t
                \<and> (owner f \<noteq> Some ''b'' \<or> owner t = Some ''b'' \<or> troops f \<le> 1
                     \<or> \<not> isAdjacentTo f (tid t)))"
    using f t low by blast
  show ?thesis
    using processAttack_invalid_no_change [of duel 7 1 "''a''" "1 / 2" "1 / 2"] h1
      processAttack_invalid_no_change [OF h2, of "1 / 2" "1 / 2"] low
    by simp
qed

subsection \<open>The game phase is not consulted\<close>

text \<open>
  Claim C10. \<open>processAttack\<close> does not read \<open>gamePhase\<close>: its result and the territories it
  leaves are the same whatever the phase, and in a state whose phase is \<open>ended\<close> (or
  \<open>lobby\<close>) a request that passes the four rules succeeds and changes owners and troops.
\<close>

theorem processAttack_ignores_gamePhase:
  "fst (processAttack (s\<lparr>gamePhase := ph\<rparr>) fromId toId playerId r1 r2)
     = fst (processAttack s fromId toId playerId r1 r2)
   \<and> territories (snd (processAttack (s\<lparr>gamePhase := ph\<rparr>) fromId toId playerId r1 r2))
     = territories (snd (processAttack s fromId toId playerId r1 r2))
   \<and> gamePhase (duel\<lparr>gamePhase := ''ended''\<rparr>) = ''ended''
   \<and> validateAttack (territory_at (territories (duel\<lparr>gamePhase := ''ended''\<rparr>)) 0)
                      (territory_at (territories (duel\<lparr>gamePhase := ''ended''\<rparr>)) 1) ''a''
   \<and> fst (processAttack (duel\<lparr>gamePhase := ''ended''\<rparr>) 0 1 ''a'' (1 / 2) (1 / 2))
       = Success True 3 3 0 1
   \<and> map owner (territories (duel\<lparr>gamePhase := ''ended''\<rparr>)) = [Some ''a'', Some ''b'']
   \<and> map troops (territories (duel\<lparr>gamePhase := ''ended''\<rparr>)) = [10, 3]
   \<and> map owner (territories (snd (processAttack (duel\<lparr>gamePhase := ''ended''\<rparr>) 0 1 ''a''
                                      (1 / 2) (1 / 2))))
       = [Some ''a'', Some ''a'']
   \<and> map troops (territories (snd (processAttack (duel\<lparr>gamePhase := ''ended''\<rparr>) 0 1 ''a''
                                       (1 / 2) (1 / 2))))
       = [3, 4]
   \<and> success (fst (processAttack (duel\<lparr>gamePhase := ''lobby''\<rparr>) 0 1 ''a'' (1 / 2) (1 / 2)))"
proof -
  have c1: "gamePhase (duel\<lparr>gamePhase := ''ended''\<rparr>) = ''ended''" by simp
  have c2: "validateAttack (territory_at (territories (duel\<lparr>gamePhase := ''ended''\<rparr>)) 0)
                      (territory_at (territories (duel\<lparr>gamePhase := ''ended''\<rparr>)) 1) ''a''"
    by code_simp
  have c3: "fst (processAttack (duel\<lparr>gamePhase := ''ended''\<rparr>) 0 1 ''a'' (1 / 2) (1 / 2))
       = Success True 3 3 0 1"
    by code_simp
  have c4: "map owner (territories (duel\<lparr>gamePhase := ''ended''\<rparr>)) = [Some ''a'', Some ''b'']"
    by code_simp
  have c5: "map troops (territories (duel\<lparr>gamePhase := ''ended''\<rparr>)) = [10, 3]"
    by code_simp
  have c6: "map owner (territories (snd (processAttack (duel\<lparr>gamePhase := ''ended''\<rparr>) 0 1 ''a''
                                      (1 / 2) (1 / 2))))
       = [Some ''a'', Some ''a'']"
    by code_simp
  have c7: "map troops (territories (snd (processAttack (duel\<lparr>gamePhase := ''ended''\<rparr>) 0 1 ''a''
                                       (1 / 2) (1 / 2))))
       = [3, 4]"
    by code_simp
  have c8: "success (fst (processAttack (duel\<lparr>gamePhase := ''lobby''\<rparr>) 0 1 ''a'' (1 / 2) (1 / 2)))"
    by code_simp
  show ?thesis
    using processAttack_phase_irrelevant [where s = s and ph = ph and fromId = fromId
        and toId = toId and playerId = playerId and ?r1.0 = r1 and ?r2.0 = r2]
      c1 c2 c3 c4 c5 c6 c7 c8
    by blast
qed

subsection \<open>Serialization\<close>

text \<open>
  Claim C8. \<open>deserialize(serialize(s))\<close> has the territories of \<open>s\<close>, so the same owners
  and troop counts, the same player roster, the same turn counter and the same phase.
\<close>

theorem serialize_deserialize_roundtrip:
  "territories (deserialize (serialize s) now) = territories s
   \<and> map owner (territories (deserialize (serialize s) now)) = map owner (territories s)
   \<and> map troops (territories (deserialize (serialize s) now)) = map troops (territories s)
   \<and> players (deserialize (serialize s) now) = players s
   \<and> currentTurn (deserialize (serialize s) now) = currentTurn s
   \<and> gamePhase (deserialize (serialize s) now) = gamePhase s"
proof -
  have t: "territory_deserialize (territory_serialize t) = t" for t
    by (simp add: territory_deserialize_def territory_serialize_def new_Territory_def)
  have "territories (deserialize (serialize s) now) = territories s"
    by (simp add: deserialize_def serialize_def t map_idI)
  then show ?thesis by (simp add: deserialize_def serialize_def)
qed

text \<open>
  The snapshot does not carry the two configuration values: they come back as the
  defaults of the constructor.
\<close>

lemma deserialize_resets_configuration:
  "territoryCount (deserialize (serialize s) now) = 60
   \<and> troopGenerationRate (deserialize (serialize s) now) = 1"
  by (simp add: deserialize_def new_GameState_def no_config_def or_default_def)

subsection \<open>Attacks out of turn\<close>

text \<open>
  Claim C5, as stated, fails: in the two-territory state the current player is \<open>a\<close>, and
  the request of \<open>b\<close>, which passes the rules of ownership, troops and adjacency, is
  accepted by \<open>processAttack\<close> and changes the troops of both territories.
\<close>

theorem processAttack_out_of_turn_counterexample:
  "map_option pid (getCurrentPlayer duel) = Some ''a''
   \<and> fst (processAttack duel 1 0 ''b'' (1 / 2) (1 / 2)) = Success False 1 3 1 0
   \<and> map troops (territories duel) = [10, 3]
   \<and> map troops (territories (snd (processAttack duel 1 0 ''b'' (1 / 2) (1 / 2)))) = [7, 2]"
  by code_simp

text \<open>
  Claim C5, amended. A request made out of turn is turned down, with the message
  \<open>Not your turn\<close> and no change of state, by the server's handler of the \<open>attack\<close>
  message, which compares the sender with the current player before it calls
  \<open>processAttack\<close>. \<open>processAttack\<close> itself does not read the turn counter: its result for
  a request is the same at every value of the counter.
\<close>

theorem out_of_turn_rejected_by_handler:
  assumes "getCurrentPlayer s = Some p" and "pid p \<noteq> socketId"
  shows "onAttack s socketId fromId toId r1 r2 = Inr (Error ''Not your turn'', s)
       \<and> processAttack (s\<lparr>currentTurn := n\<rparr>) fromId toId socketId r1 r2
           = (fst (processAttack s fromId toId socketId r1 r2),
              (snd (processAttack s fromId toId socketId r1 r2))\<lparr>currentTurn := n\<rparr>)"
  using assms processAttack_turn_irrelevant
  by (simp add: onAttack_def)

theorem out_of_turn_rejected_by_handler_witness:
  "getCurrentPlayer duel = Some (ex_player ''a'')
   \<and> pid (ex_player ''a'') \<noteq> ''b''
   \<and> onAttack duel ''b'' 1 0 (1 / 2) (1 / 2) = Inr (Error ''Not your turn'', duel)"
proof -
  have h1: "getCurrentPlayer duel = Some (ex_player ''a'')" by code_simp
  have h2: "pid (ex_player ''a'') \<noteq> ''b''" by (simp add: ex_player_def)
  show ?thesis
    using out_of_turn_rejected_by_handler [OF h1 h2] h1 h2 by simp
qed

subsection \<open>Auxiliary facts about the map generator\<close>






lemma createTerritories_length [simp]:
  "length (createTerritories pts w h) = length pts"
  by (simp add: createTerritories_def Let_def)



lemma addNeighbor_simps [simp]:
  "set (neighbors (addNeighbor t n)) = insert n (set (neighbors t))"
  "tid (addNeighbor t n) = tid t"
  "vertices (addNeighbor t n) = vertices t"
  "center (addNeighbor t n) = center t"
  by (auto simp: addNeighbor_def)















lemma stuck_steps:
  assumes "1 < count" and "0 < md"
    and "\<forall>i. k \<le> i \<and> i < k + m \<longrightarrow> rnd (2 * i) = c \<and> rnd (2 * i + 1) = c"
  shows "generatePoints_loop rnd k count w h md [\<lparr>px = c * w, py = c * h\<rparr>]
           = generatePoints_loop rnd (k + m) count w h md [\<lparr>px = c * w, py = c * h\<rparr>]"
  using assms(3)
proof (induction m arbitrary: k)
  case 0
  then show ?case by simp
next
  case (Suc m)
  have here: "rnd (2 * k) = c" "rnd (2 * k + 1) = c" using Suc.prems by auto
  have "generatePoints_loop rnd k count w h md [\<lparr>px = c * w, py = c * h\<rparr>]
          = generatePoints_loop rnd (k + 1) count w h md [\<lparr>px = c * w, py = c * h\<rparr>]"
    using assms(1,2) here by (subst generatePoints_loop.simps) simp
  also have "\<dots> = generatePoints_loop rnd (k + 1 + m) count w h md [\<lparr>px = c * w, py = c * h\<rparr>]"
    using Suc.prems by (intro Suc.IH) auto
  finally show ?case by simp
qed

lemma stuck_forever:
  assumes "generatePoints_loop rnd k count w h md pts = Some res"
  shows "\<not> (pts = [\<lparr>px = c * w, py = c * h\<rparr>] \<and> 1 < count \<and> 0 < md \<and> rnd = constantDraws c)"
  using assms
proof (induction rule: generatePoints_loop.raw_induct[rotated 1, consumes 1])
  case (1 loop rnd k count w h md pts res)
  then show ?case
    by (auto simp: constantDraws_def split: if_splits)
qed

text \<open>The map of one territory on a 10 by 10 canvas.\<close>

lemma generateMap_single:
  "generateMap 1 10 10 (constantDraws (1 / 2))
     = Some (Inr [\<lparr>tid = 0, vertices = [\<lparr>px = 0, py = 0\<rparr>], center = \<lparr>px = 5, py = 5\<rparr>,
                   owner = None, troops = 10, neighbors = []\<rparr>])"
proof -
  have p: "generatePoints 1 10 10 (constantDraws (1 / 2)) = Some [\<lparr>px = 5, py = 5\<rparr>]"
    by (simp add: generatePoints_def generatePoints_loop.simps constantDraws_def)
  have n: "nearest 5 5 [\<lparr>px = 5, py = 5\<rparr>] 0 0 None = 0"
    by (simp add: below_def)
  have b: "extractBoundary [[0]] 0 10 (Suc 0) (Suc 0) = [\<lparr>px = 0, py = 0\<rparr>]"
    by (simp add: extractBoundary_def isEdge_def)
  have c: "createTerritories [\<lparr>px = 5, py = 5\<rparr>] 10 10
             = [new_Territory 0 [\<lparr>px = 0, py = 0\<rparr>] \<lparr>px = 5, py = 5\<rparr>]"
    by (simp add: createTerritories_def Let_def n b)
  show ?thesis
    unfolding generateMap_def p
    by (simp add: c calculateNeighbors_def pairs_def new_Territory_def)
qed

text \<open>Two seeds in opposite corners of a 10 by 10 map give two linked territories.\<close>

lemma generatePoints_pair:
  "generatePoints 2 10 10 spreadDraws = Some [\<lparr>px = 1, py = 1\<rparr>, \<lparr>px = 9, py = 9\<rparr>]"
proof -
  have far: "\<not> sqrt 128 < sqrt 50 * (7 / 10)"
  proof -
    have "sqrt (49 / 100) = 7 / (10 :: real)"
      by (rule real_sqrt_unique) (simp_all add: power2_eq_square)
    then have "sqrt 50 * (7 / 10) = sqrt (50 * (49 / 100))"
      by (simp only: real_sqrt_mult)
    also have "\<dots> \<le> sqrt 128" by (intro real_sqrt_le_mono) simp
    finally show ?thesis by simp
  qed
  show ?thesis
    unfolding generatePoints_def
    using far
    by (subst generatePoints_loop.simps, subst generatePoints_loop.simps,
        subst generatePoints_loop.simps) (simp add: spreadDraws_def)
qed

lemma generateMap_pair:
  "generateMap 2 10 10 spreadDraws
     = Some (Inr [\<lparr>tid = 0, vertices = [\<lparr>px = 0, py = 0\<rparr>], center = \<lparr>px = 1, py = 1\<rparr>,
                   owner = None, troops = 10, neighbors = [1]\<rparr>,
                  \<lparr>tid = 1,
                   vertices = [\<lparr>px = 0, py = 0\<rparr>, \<lparr>px = 10, py = 0\<rparr>, \<lparr>px = 10, py = 10\<rparr>,
                               \<lparr>px = 0, py = 10\<rparr>],
                   center = \<lparr>px = 9, py = 9\<rparr>, owner = None, troops = 10, neighbors = [0]\<rparr>])"
proof -
  have b0: "extractBoundary [[0]] 0 10 (Suc 0) (Suc 0) = [\<lparr>px = 0, py = 0\<rparr>]"
    by (simp add: extractBoundary_def isEdge_def)
  have b1: "extractBoundary [[0]] (Suc 0) 10 (Suc 0) (Suc 0)
              = [\<lparr>px = 0, py = 0\<rparr>, \<lparr>px = 10, py = 0\<rparr>, \<lparr>px = 10, py = 10\<rparr>, \<lparr>px = 0, py = 10\<rparr>]"
    by (simp add: extractBoundary_def isEdge_def)
  have c: "createTerritories [\<lparr>px = 1, py = 1\<rparr>, \<lparr>px = 9, py = 9\<rparr>] 10 10
             = [new_Territory 0 [\<lparr>px = 0, py = 0\<rparr>] \<lparr>px = 1, py = 1\<rparr>,
                new_Territory 1 [\<lparr>px = 0, py = 0\<rparr>, \<lparr>px = 10, py = 0\<rparr>, \<lparr>px = 10, py = 10\<rparr>,
                                 \<lparr>px = 0, py = 10\<rparr>] \<lparr>px = 9, py = 9\<rparr>]"
    by (simp add: createTerritories_def Let_def below_def b0 b1 upt_rec)
  have "sqrt 128 < sqrt (150 * 150)" by (intro real_sqrt_less_mono) simp
  then have d: "sqrt 128 < 150" by simp
  show ?thesis
    unfolding generateMap_def generatePoints_pair
    using d
    by (simp add: c calculateNeighbors_def pairs_def new_Territory_def linkIfClose_def
        distance_def addNeighbor_def upt_rec)
qed

subsection \<open>The generated map\<close>




subsection \<open>Seed placement\<close>

text \<open>
  Claim C7 says that a candidate point is retried at most 30 times and then accepted, so
  that \<open>generatePoints\<close> always returns. The loop has no such cap. With every draw equal
  to \<open>0.5\<close>, every candidate after the first point is the first point again, is rejected,
  and \<open>generatePoints(2, 10, 10)\<close> never returns. With 72 draws of \<open>0.5\<close> followed by
  draws of \<open>0.9\<close>, it rejects 35 candidates in a row and returns the 36th as the second
  point, not the too-close candidate that a cap of 30 would have let in.
\<close>

theorem generatePoints_no_retry_cap:
  "generatePoints 2 10 10 (constantDraws (1 / 2)) = None
   \<and> generatePoints 2 10 10 lateDraws = Some [\<lparr>px = 5, py = 5\<rparr>, \<lparr>px = 9, py = 9\<rparr>]"
proof
  let ?md = "sqrt (10 * 10 / real 2) * (7 / 10)"
  have md: "0 < ?md" by simp
  have first: "generatePoints_loop rnd 0 2 10 10 ?md [] 
                 = generatePoints_loop rnd 1 2 10 10 ?md [\<lparr>px = rnd 0 * 10, py = rnd 1 * 10\<rparr>]" for rnd
    by (subst generatePoints_loop.simps) simp
  have "generatePoints_loop (constantDraws (1 / 2)) 1 2 10 10 ?md [\<lparr>px = 1 / 2 * 10, py = 1 / 2 * 10\<rparr>] = None"
    using stuck_forever [of "constantDraws (1 / 2)" 1 2 10 10 ?md "[\<lparr>px = 1 / 2 * 10, py = 1 / 2 * 10\<rparr>]" _ "1 / 2"] md
    by (cases "generatePoints_loop (constantDraws (1 / 2)) 1 2 10 10 ?md [\<lparr>px = 1 / 2 * 10, py = 1 / 2 * 10\<rparr>]") auto
  then show "generatePoints 2 10 10 (constantDraws (1 / 2)) = None"
    unfolding generatePoints_def first by (simp add: constantDraws_def)
  have s: "generatePoints_loop lateDraws 1 2 10 10 ?md [\<lparr>px = 1 / 2 * 10, py = 1 / 2 * 10\<rparr>]
         = generatePoints_loop lateDraws (1 + 35) 2 10 10 ?md [\<lparr>px = 1 / 2 * 10, py = 1 / 2 * 10\<rparr>]"
    by (rule stuck_steps) (use md in \<open>auto simp: lateDraws_def\<close>)
  have far: "\<not> sqrt 32 < sqrt 50 * (7 / 10)"
  proof -
    have "sqrt (49 / 100) = 7 / (10 :: real)"
      by (rule real_sqrt_unique) (simp_all add: power2_eq_square)
    then have "sqrt 50 * (7 / 10) = sqrt (50 * (49 / 100))"
      by (simp only: real_sqrt_mult)
    also have "\<dots> \<le> sqrt 32" by (intro real_sqrt_le_mono) simp
    finally show ?thesis by simp
  qed
  have last: "generatePoints_loop lateDraws 36 2 10 10 ?md [\<lparr>px = 5, py = 5\<rparr>]
                = Some [\<lparr>px = 5, py = 5\<rparr>, \<lparr>px = 9, py = 9\<rparr>]"
    using far
    by (subst generatePoints_loop.simps, subst generatePoints_loop.simps) (simp add: lateDraws_def)
  show "generatePoints 2 10 10 lateDraws = Some [\<lparr>px = 5, py = 5\<rparr>, \<lparr>px = 9, py = 9\<rparr>]"
    unfolding generatePoints_def first using s last by (simp add: lateDraws_def)
qed

subsection \<open>Player aggregates\<close>

lemma statsConsistent_updatePlayerStats: "statsConsistent (updatePlayerStats s)"
  by (simp add: statsConsistent_def updatePlayerStats_def list_all_iff ownedBy_def)

lemma statsConsistent_cong:
  "players s' = players s \<Longrightarrow> territories s' = territories s \<Longrightarrow>
     statsConsistent s' = statsConsistent s"
  by (simp add: statsConsistent_def)

lemma assignStartingTerritories_consistent:
  "statsConsistent (assignStartingTerritories s shuffled)"
  by (simp add: assignStartingTerritories_def Let_def statsConsistent_updatePlayerStats
      split: prod.splits)

lemma count_owned_split:
  assumes "a \<notin> set ids"
  shows "length (filter (\<lambda>t. f t = Some a) ts) + length (filter (\<lambda>t. f t \<in> Some ` set ids) ts)
           = length (filter (\<lambda>t. f t \<in> Some ` set (a # ids)) ts)"
  using assms by (induction ts) auto

lemma sum_owned_counts:
  assumes "distinct ids"
  shows "sum_list (map (\<lambda>a. length (filter (\<lambda>t. f t = Some a) ts)) ids)
           = length (filter (\<lambda>t. f t \<in> Some ` set ids) ts)"
  using assms
proof (induction ids)
  case Nil
  then show ?case by simp
next
  case (Cons a ids)
  then show ?case using count_owned_split [of a ids f ts] by simp
qed

lemma statsConsistent_sum:
  assumes "statsConsistent s" and "distinct (map pid (players s))"
  shows "sum_list (map territoriesOwned (players s))
           = length (filter (\<lambda>t. owner t \<in> Some ` pid ` set (players s)) (territories s))"
proof -
  let ?g = "\<lambda>a. length (filter (\<lambda>t. owner t = Some a) (territories s))"
  have eq: "map territoriesOwned (players s) = map ?g (map pid (players s))"
    using assms(1) by (auto simp: statsConsistent_def list_all_iff)
  have "sum_list (map territoriesOwned (players s)) = sum_list (map ?g (map pid (players s)))"
    by (simp only: eq)
  also have "\<dots> = length (filter (\<lambda>t. owner t \<in> Some ` set (map pid (players s))) (territories s))"
    by (rule sum_owned_counts [OF assms(2)])
  finally show ?thesis by simp
qed

lemma nextTurn_consistent: "nextTurn s now = Inr s' \<Longrightarrow> statsConsistent s'"
  by (auto simp: nextTurn_def statsConsistent_updatePlayerStats split: sum.splits)

lemma initializeGame_consistent:
  "initializeGame s lobby rnd shuffled now = Some (Inr s') \<Longrightarrow> statsConsistent s'"
  using statsConsistent_cong [of s' "assignStartingTerritories x shuffled" for x]
    assignStartingTerritories_consistent
  by (auto simp: initializeGame_def split: option.splits sum.splits)

lemma processAttack_consistent:
  "success (fst (processAttack s fromId toId playerId r1 r2)) \<or> statsConsistent s \<Longrightarrow>
     statsConsistent (snd (processAttack s fromId toId playerId r1 r2))"
proof (cases "success (fst (processAttack s fromId toId playerId r1 r2))")
  case True
  then obtain ts where "snd (processAttack s fromId toId playerId r1 r2)
               = checkWinCondition (updatePlayerStats (s\<lparr>territories := ts\<rparr>))"
    using processAttack_success_shape by blast
  then show ?thesis
    using statsConsistent_cong [of "checkWinCondition x" x for x]
      statsConsistent_updatePlayerStats by simp
next
  case False
  assume "success (fst (processAttack s fromId toId playerId r1 r2)) \<or> statsConsistent s"
  then show ?thesis using False processAttack_failure_shape [OF False] by simp
qed

lemma tiny_game:
  "initializeGame tinyGame twoInLobby (constantDraws (1 / 2)) [0] 7
    = Some (Inr
        \<lparr>territories =
           [\<lparr>tid = 0, vertices = [\<lparr>px = 0, py = 0\<rparr>], center = \<lparr>px = 5, py = 5\<rparr>,
             owner = None, troops = 5, neighbors = []\<rparr>],
         players =
           [\<lparr>pid = ''a'', pname = ''Ann'', color = ''#FF4444'', isAI = False, isAlive = False,
             territoriesOwned = 0, totalTroops = 0\<rparr>,
            \<lparr>pid = ''b'', pname = ''Bot'', color = ''#4444FF'', isAI = True, isAlive = False,
             territoriesOwned = 0, totalTroops = 0\<rparr>],
         currentTurn = 0, turnTimeLimit = 45000, turnStartTime = 7, gamePhase = ''playing'',
         winner = None, mapWidth = 10, mapHeight = 10, territoryCount = 1,
         troopGenerationRate = 1\<rparr>)"
proof -
  have c: "territoryCount tinyGame = 1" "mapWidth tinyGame = 10" "mapHeight tinyGame = 10"
    by (simp_all add: tinyGame_def new_GameState_def or_default_def)
  show ?thesis
    unfolding initializeGame_def c generateMap_single
    by (simp add: tinyGame_def new_GameState_def or_default_def twoInLobby_def
        assignStartingTerritories_def updatePlayerStats_def ownedBy_def getPlayerColor_def)
qed

text \<open>
  Claim C3, as stated, fails: the sum of \<open>territoriesOwned\<close> is not the number of
  territories, because territories can be neutral. After \<open>initializeGame\<close> of a game with
  one territory and two players the sum is 0; after the deal of four territories to two
  players it is 2, and it is 2 after \<open>nextTurn\<close> and 3 after a conquest, of four
  territories.
\<close>

theorem territoriesOwned_sum_counterexample:
  "(case initializeGame tinyGame twoInLobby (constantDraws (1 / 2)) [0] 7 of
      Some (Inr s') \<Rightarrow> sum_list (map territoriesOwned (players s')) = 0
                       \<and> length (territories s') = 1 \<and> length (players s') = 2
    | _ \<Rightarrow> False)
   \<and> map owner (territories dealtFour) = [Some ''b'', None, Some ''a'', None]
   \<and> sum_list (map territoriesOwned (players dealtFour)) = 2
   \<and> length (territories dealtFour) = 4
   \<and> (case nextTurn dealtFour 7 of
        Inl e \<Rightarrow> False
      | Inr s' \<Rightarrow> sum_list (map territoriesOwned (players s')) = 2
                  \<and> length (territories s') = 4)
   \<and> success (fst (processAttack dealtFour 2 3 ''a'' (1 / 2) (1 / 2)))
   \<and> sum_list (map territoriesOwned (players (snd (processAttack dealtFour 2 3 ''a'' (1 / 2) (1 / 2))))) = 3
   \<and> length (territories (snd (processAttack dealtFour 2 3 ''a'' (1 / 2) (1 / 2)))) = 4"
proof -
  have a: "map owner (territories dealtFour) = [Some ''b'', None, Some ''a'', None]
   \<and> sum_list (map territoriesOwned (players dealtFour)) = 2
   \<and> length (territories dealtFour) = 4
   \<and> (case nextTurn dealtFour 7 of
        Inl e \<Rightarrow> False
      | Inr s' \<Rightarrow> sum_list (map territoriesOwned (players s')) = 2
                  \<and> length (territories s') = 4)
   \<and> success (fst (processAttack dealtFour 2 3 ''a'' (1 / 2) (1 / 2)))
   \<and> sum_list (map territoriesOwned (players (snd (processAttack dealtFour 2 3 ''a'' (1 / 2) (1 / 2))))) = 3
   \<and> length (territories (snd (processAttack dealtFour 2 3 ''a'' (1 / 2) (1 / 2)))) = 4"
    by code_simp
  show ?thesis using a by (simp add: tiny_game)
qed

text \<open>
  Claim C3, amended. After \<open>initializeGame\<close>, after every accepted \<open>processAttack\<close> and
  after every \<open>nextTurn\<close>, each player's \<open>territoriesOwned\<close> is the number of territories
  whose owner is that player's id and \<open>totalTroops\<close> the sum of their troops; a rejected
  \<open>processAttack\<close> keeps this. In such a state with distinct player ids, the sum of
  \<open>territoriesOwned\<close> over the players is the number of territories owned by a player of
  the roster, which is at most, and with neutral territories less than, the number of
  territories.
\<close>

theorem player_aggregates_recomputed:
  "(\<forall>s'. initializeGame s lobby rnd shuffled now = Some (Inr s') \<longrightarrow> statsConsistent s')
   \<and> (success (fst (processAttack s fromId toId playerId r1 r2)) \<or> statsConsistent s
        \<longrightarrow> statsConsistent (snd (processAttack s fromId toId playerId r1 r2)))
   \<and> (\<forall>s'. nextTurn s now = Inr s' \<longrightarrow> statsConsistent s')
   \<and> (statsConsistent s \<and> distinct (map pid (players s))
        \<longrightarrow> sum_list (map territoriesOwned (players s))
              = length (filter (\<lambda>t. owner t \<in> Some ` pid ` set (players s)) (territories s))
          \<and> sum_list (map territoriesOwned (players s)) \<le> length (territories s))"
proof (intro conjI allI impI)
  fix s' assume "initializeGame s lobby rnd shuffled now = Some (Inr s')"
  then show "statsConsistent s'" by (rule initializeGame_consistent)
next
  assume "success (fst (processAttack s fromId toId playerId r1 r2)) \<or> statsConsistent s"
  then show "statsConsistent (snd (processAttack s fromId toId playerId r1 r2))"
    by (rule processAttack_consistent)
next
  fix s' assume "nextTurn s now = Inr s'"
  then show "statsConsistent s'" by (rule nextTurn_consistent)
next
  assume a: "statsConsistent s \<and> distinct (map pid (players s))"
  then show e: "sum_list (map territoriesOwned (players s))
              = length (filter (\<lambda>t. owner t \<in> Some ` pid ` set (players s)) (territories s))"
    using statsConsistent_sum by blast
  show "sum_list (map territoriesOwned (players s)) \<le> length (territories s)"
    unfolding e by (rule length_filter_le)
qed

theorem player_aggregates_recomputed_witness:
  "(\<exists>s'. initializeGame tinyGame twoInLobby (constantDraws (1 / 2)) [0] 7 = Some (Inr s')
         \<and> statsConsistent s')
   \<and> success (fst (processAttack dealtFour 2 3 ''a'' (1 / 2) (1 / 2)))
   \<and> statsConsistent (snd (processAttack dealtFour 2 3 ''a'' (1 / 2) (1 / 2)))
   \<and> (\<exists>s'. nextTurn dealtFour 7 = Inr s' \<and> statsConsistent s')
   \<and> statsConsistent dealtFour
   \<and> distinct (map pid (players dealtFour))
   \<and> sum_list (map territoriesOwned (players dealtFour))
       = length (filter (\<lambda>t. owner t \<in> Some ` pid ` set (players dealtFour)) (territories dealtFour))"
proof -
  have ok: "success (fst (processAttack dealtFour 2 3 ''a'' (1 / 2) (1 / 2)))"
    by code_simp
  have "\<not> isl (nextTurn dealtFour 7)"
    by code_simp
  then obtain s'' where nt: "nextTurn dealtFour 7 = Inr s''"
    by (cases "nextTurn dealtFour 7") auto
  have c: "statsConsistent dealtFour" by code_simp
  have d: "distinct (map pid (players dealtFour))" by code_simp
  note i = tiny_game
  show ?thesis
    using player_aggregates_recomputed [where s = tinyGame and lobby = twoInLobby
        and rnd = "constantDraws (1 / 2)" and shuffled = "[0]" and now = 7]
      player_aggregates_recomputed [where s = dealtFour and fromId = 2 and toId = 3
        and playerId = "''a''" and ?r1.0 = "1 / 2" and ?r2.0 = "1 / 2" and now = 7]
      ok nt c d i
    by blast
qed

subsection \<open>The win condition\<close>

lemma solo_game:
  "initializeGame soloGame oneInLobby spreadDraws [0, 1] 7
    = Some (Inr
        \<lparr>territories =
           [\<lparr>tid = 0, vertices = [\<lparr>px = 0, py = 0\<rparr>], center = \<lparr>px = 1, py = 1\<rparr>,
             owner = Some ''a'', troops = 15, neighbors = [1]\<rparr>,
            \<lparr>tid = 1,
             vertices = [\<lparr>px = 0, py = 0\<rparr>, \<lparr>px = 10, py = 0\<rparr>, \<lparr>px = 10, py = 10\<rparr>,
                         \<lparr>px = 0, py = 10\<rparr>],
             center = \<lparr>px = 9, py = 9\<rparr>, owner = None, troops = 5, neighbors = [0]\<rparr>],
         players =
           [\<lparr>pid = ''a'', pname = ''Ann'', color = ''#FF4444'', isAI = False, isAlive = True,
             territoriesOwned = 1, totalTroops = 15\<rparr>],
         currentTurn = 0, turnTimeLimit = 45000, turnStartTime = 7, gamePhase = ''playing'',
         winner = None, mapWidth = 10, mapHeight = 10, territoryCount = 2,
         troopGenerationRate = 1\<rparr>)"
proof -
  have c: "territoryCount soloGame = 2" "mapWidth soloGame = 10" "mapHeight soloGame = 10"
    by (simp_all add: soloGame_def new_GameState_def or_default_def)
  show ?thesis
    unfolding initializeGame_def c generateMap_pair
    by (simp add: soloGame_def new_GameState_def or_default_def oneInLobby_def
        assignStartingTerritories_def updatePlayerStats_def ownedBy_def getPlayerColor_def
        upt_rec)
qed

text \<open>
  Claim C4, as stated, fails for \<open>nextTurn\<close>, which does not evaluate the win condition.
  In the state that \<open>initializeGame\<close> builds for two players on a map of one territory,
  where nobody owns anything, \<open>nextTurn\<close> returns with no player alive and the phase still
  \<open>playing\<close>. In the state that it builds for one player on a map of two territories,
  \<open>nextTurn\<close> returns with exactly one player alive, the phase still \<open>playing\<close> and no
  winner.
\<close>

theorem nextTurn_win_check_counterexample:
  "(case initializeGame tinyGame twoInLobby (constantDraws (1 / 2)) [0] 7 of
      Some (Inr s0) \<Rightarrow>
        (case nextTurn s0 8 of
           Inl e \<Rightarrow> False
         | Inr s' \<Rightarrow> map isAlive (players s') = [False, False]
                     \<and> map owner (territories s') = [None]
                     \<and> gamePhase s' = ''playing'')
    | _ \<Rightarrow> False)
   \<and> (case initializeGame soloGame oneInLobby spreadDraws [0, 1] 7 of
        Some (Inr s0) \<Rightarrow>
          (case nextTurn s0 8 of
             Inl e \<Rightarrow> False
           | Inr s' \<Rightarrow> map isAlive (players s') = [True]
                       \<and> map owner (territories s') = [Some ''a'', None]
                       \<and> gamePhase s' = ''playing'' \<and> winner s' = None)
      | _ \<Rightarrow> False)"
proof -
  have a: "(case nextTurn
        \<lparr>territories =
           [\<lparr>tid = 0, vertices = [\<lparr>px = 0, py = 0\<rparr>], center = \<lparr>px = 5, py = 5\<rparr>,
             owner = None, troops = 5, neighbors = []\<rparr>],
         players =
           [\<lparr>pid = ''a'', pname = ''Ann'', color = ''#FF4444'', isAI = False, isAlive = False,
             territoriesOwned = 0, totalTroops = 0\<rparr>,
            \<lparr>pid = ''b'', pname = ''Bot'', color = ''#4444FF'', isAI = True, isAlive = False,
             territoriesOwned = 0, totalTroops = 0\<rparr>],
         currentTurn = 0, turnTimeLimit = 45000, turnStartTime = 7, gamePhase = ''playing'',
         winner = None, mapWidth = 10, mapHeight = 10, territoryCount = 1,
         troopGenerationRate = 1\<rparr> 8 of
             Inl e \<Rightarrow> False
           | Inr s' \<Rightarrow> map isAlive (players s') = [False, False]
                       \<and> map owner (territories s') = [None]
                       \<and> gamePhase s' = ''playing'')"
    by code_simp
  have b: "(case nextTurn
        \<lparr>territories =
           [\<lparr>tid = 0, vertices = [\<lparr>px = 0, py = 0\<rparr>], center = \<lparr>px = 1, py = 1\<rparr>,
             owner = Some ''a'', troops = 15, neighbors = [1]\<rparr>,
            \<lparr>tid = 1,
             vertices = [\<lparr>px = 0, py = 0\<rparr>, \<lparr>px = 10, py = 0\<rparr>, \<lparr>px = 10, py = 10\<rparr>,
                         \<lparr>px = 0, py = 10\<rparr>],
             center = \<lparr>px = 9, py = 9\<rparr>, owner = None, troops = 5, neighbors = [0]\<rparr>],
         players =
           [\<lparr>pid = ''a'', pname = ''Ann'', color = ''#FF4444'', isAI = False, isAlive = True,
             territoriesOwned = 1, totalTroops = 15\<rparr>],
         currentTurn = 0, turnTimeLimit = 45000, turnStartTime = 7, gamePhase = ''playing'',
         winner = None, mapWidth = 10, mapHeight = 10, territoryCount = 2,
         troopGenerationRate = 1\<rparr> 8 of
             Inl e \<Rightarrow> False
           | Inr s' \<Rightarrow> map isAlive (players s') = [True]
                       \<and> map owner (territories s') = [Some ''a'', None]
                       \<and> gamePhase s' = ''playing'' \<and> winner s' = None)"
    by code_simp
  have A: "(case initializeGame tinyGame twoInLobby (constantDraws (1 / 2)) [0] 7 of
      Some (Inr s0) \<Rightarrow>
        (case nextTurn s0 8 of
           Inl e \<Rightarrow> False
         | Inr s' \<Rightarrow> map isAlive (players s') = [False, False]
                     \<and> map owner (territories s') = [None]
                     \<and> gamePhase s' = ''playing'')
    | _ \<Rightarrow> False)"
    unfolding tiny_game using a by simp
  have B: "(case initializeGame soloGame oneInLobby spreadDraws [0, 1] 7 of
        Some (Inr s0) \<Rightarrow>
          (case nextTurn s0 8 of
             Inl e \<Rightarrow> False
           | Inr s' \<Rightarrow> map isAlive (players s') = [True]
                       \<and> map owner (territories s') = [Some ''a'', None]
                       \<and> gamePhase s' = ''playing'' \<and> winner s' = None)
      | _ \<Rightarrow> False)"
    unfolding solo_game using b by simp
  show ?thesis using A B by (rule conjI)
qed

text \<open>
  Claim C4, amended. After every accepted \<open>processAttack\<close> a player is alive exactly when
  it owns a territory, and: if exactly one player is alive the phase is \<open>ended\<close> and the
  winner is that player; if none is, the phase is \<open>ended\<close> and the winner is \<open>null\<close>; if
  more than one is, phase and winner are as before the call. A rejected \<open>processAttack\<close>
  leaves the state as it was. \<open>nextTurn\<close> does not evaluate the win condition, but it
  changes no owner, no player id, neither phase nor winner, and recomputes \<open>isAlive\<close> from
  the ownership: the win condition holds after \<open>nextTurn\<close> exactly when it held before, and
  then the three cases above hold of the state that \<open>nextTurn\<close> returns. The win condition
  holds after every accepted attack and is kept by every \<open>processAttack\<close>, so it holds
  after every attack and every turn advance from the first accepted attack on. With four
  players, the attack that takes the last territory of the third rival ends the game for
  the attacker, and the game is still ended, for the same winner, after the next
  \<open>nextTurn\<close>.
\<close>

theorem win_check_after_accepted_attack:
  "(success (fst (processAttack s fromId toId playerId r1 r2)) \<longrightarrow>
      (let s' = snd (processAttack s fromId toId playerId r1 r2);
           alive = filter isAlive (players s')
       in list_all (\<lambda>p. isAlive p = (0 < length (ownedBy (pid p) (territories s')))) (players s')
        \<and> (length alive = 1 \<longrightarrow> gamePhase s' = ''ended'' \<and> winnerPlayer s' = Some (alive ! 0))
        \<and> (length alive = 0 \<longrightarrow> gamePhase s' = ''ended'' \<and> winner s' = None)
        \<and> (1 < length alive \<longrightarrow> gamePhase s' = gamePhase s \<and> winner s' = winner s)
        \<and> winConditionHolds s'))
   \<and> (\<not> success (fst (processAttack s fromId toId playerId r1 r2)) \<longrightarrow>
        snd (processAttack s fromId toId playerId r1 r2) = s)
   \<and> (\<forall>s''. nextTurn s now = Inr s'' \<longrightarrow>
        gamePhase s'' = gamePhase s \<and> winner s'' = winner s
        \<and> map owner (territories s'') = map owner (territories s)
        \<and> map pid (players s'') = map pid (players s)
        \<and> list_all (\<lambda>p. isAlive p = (0 < length (ownedBy (pid p) (territories s'')))) (players s'')
        \<and> winConditionHolds s'' = winConditionHolds s
        \<and> (winConditionHolds s \<longrightarrow>
             (let alive = filter isAlive (players s'')
              in (length alive = 1
                    \<longrightarrow> gamePhase s'' = ''ended'' \<and> winnerPlayer s'' = Some (alive ! 0))
               \<and> (length alive = 0 \<longrightarrow> gamePhase s'' = ''ended'' \<and> winner s'' = None)
               \<and> (1 < length alive \<longrightarrow> gamePhase s'' = gamePhase s \<and> winner s'' = winner s))))
   \<and> (winConditionHolds s \<longrightarrow> winConditionHolds (snd (processAttack s fromId toId playerId r1 r2)))"
proof (intro conjI impI allI)
  fix s'' assume n: "nextTurn s now = Inr s''"
  note k = nextTurn_keeps [OF n]
  show "gamePhase s'' = gamePhase s" "winner s'' = winner s"
    "map owner (territories s'') = map owner (territories s)"
    "map pid (players s'') = map pid (players s)"
    "list_all (\<lambda>p. isAlive p = (0 < length (ownedBy (pid p) (territories s'')))) (players s'')"
    by (rule k)+
  show w: "winConditionHolds s'' = winConditionHolds s"
    using k(4,3,1,2) by (rule winConditionHolds_cong)
  assume "winConditionHolds s"
  then have "winConditionHolds s''" using w by simp
  then show "let alive = filter isAlive (players s'')
              in (length alive = 1
                    \<longrightarrow> gamePhase s'' = ''ended'' \<and> winnerPlayer s'' = Some (alive ! 0))
               \<and> (length alive = 0 \<longrightarrow> gamePhase s'' = ''ended'' \<and> winner s'' = None)
               \<and> (1 < length alive \<longrightarrow> gamePhase s'' = gamePhase s \<and> winner s'' = winner s)"
    using winConditionHolds_flags [OF k(5)] k(1,2) unfolding Let_def by blast
next
  assume "\<not> success (fst (processAttack s fromId toId playerId r1 r2))"
  then show "snd (processAttack s fromId toId playerId r1 r2) = s"
    by (rule processAttack_failure_shape)
next
  assume w: "winConditionHolds s"
  show "winConditionHolds (snd (processAttack s fromId toId playerId r1 r2))"
  proof (cases "success (fst (processAttack s fromId toId playerId r1 r2))")
    case True
    then show ?thesis by (rule processAttack_establishes)
  next
    case False
    then show ?thesis using w processAttack_failure_shape by simp
  qed
next
  assume ok: "success (fst (processAttack s fromId toId playerId r1 r2))"
  then obtain ts where sh: "snd (processAttack s fromId toId playerId r1 r2)
               = checkWinCondition (updatePlayerStats (s\<lparr>territories := ts\<rparr>))"
    using processAttack_success_shape by blast
  let ?u = "updatePlayerStats (s\<lparr>territories := ts\<rparr>)"
  have a: "list_all (\<lambda>p. isAlive p = (0 < length (ownedBy (pid p) (territories ?u)))) (players ?u)"
    using updatePlayerStats_recomputes [of "s\<lparr>territories := ts\<rparr>"] by (simp add: list_all_iff)
  have e: "winConditionHolds (snd (processAttack s fromId toId playerId r1 r2))"
    using ok by (rule processAttack_establishes)
  have "let s' = checkWinCondition ?u;
           alive = filter isAlive (players s')
       in list_all (\<lambda>p. isAlive p = (0 < length (ownedBy (pid p) (territories s')))) (players s')
        \<and> (length alive = 1 \<longrightarrow> gamePhase s' = ''ended'' \<and> winnerPlayer s' = Some (alive ! 0))
        \<and> (length alive = 0 \<longrightarrow> gamePhase s' = ''ended'' \<and> winner s' = None)
        \<and> (1 < length alive \<longrightarrow> gamePhase s' = gamePhase s \<and> winner s' = winner s)"
    using checkWinCondition_cases [of ?u] a
    unfolding Let_def by simp
  then show "let s' = snd (processAttack s fromId toId playerId r1 r2);
           alive = filter isAlive (players s')
       in list_all (\<lambda>p. isAlive p = (0 < length (ownedBy (pid p) (territories s')))) (players s')
        \<and> (length alive = 1 \<longrightarrow> gamePhase s' = ''ended'' \<and> winnerPlayer s' = Some (alive ! 0))
        \<and> (length alive = 0 \<longrightarrow> gamePhase s' = ''ended'' \<and> winner s' = None)
        \<and> (1 < length alive \<longrightarrow> gamePhase s' = gamePhase s \<and> winner s' = winner s)
        \<and> winConditionHolds s'"
    using e unfolding sh Let_def by simp
qed

theorem win_check_after_accepted_attack_witness:
  "success (fst (processAttack lastStand 0 1 ''a'' (1 / 2) (1 / 2)))
   \<and> length (players (snd (processAttack lastStand 0 1 ''a'' (1 / 2) (1 / 2)))) = 4
   \<and> length (filter isAlive (players (snd (processAttack lastStand 0 1 ''a'' (1 / 2) (1 / 2))))) = 1
   \<and> gamePhase (snd (processAttack lastStand 0 1 ''a'' (1 / 2) (1 / 2))) = ''ended''
   \<and> winnerPlayer (snd (processAttack lastStand 0 1 ''a'' (1 / 2) (1 / 2)))
       = Some (filter isAlive (players (snd (processAttack lastStand 0 1 ''a'' (1 / 2) (1 / 2)))) ! 0)
   \<and> \<not> success (fst (processAttack lastStand 1 0 ''a'' (1 / 2) (1 / 2)))
   \<and> snd (processAttack lastStand 1 0 ''a'' (1 / 2) (1 / 2)) = lastStand
   \<and> (\<exists>s''. nextTurn lastStand 7 = Inr s'' \<and> gamePhase s'' = gamePhase lastStand)
   \<and> winConditionHolds (snd (processAttack lastStand 0 1 ''a'' (1 / 2) (1 / 2)))
   \<and> (\<exists>s''. nextTurn (snd (processAttack lastStand 0 1 ''a'' (1 / 2) (1 / 2))) 7 = Inr s''
          \<and> winConditionHolds s''
          \<and> length (filter isAlive (players s'')) = 1
          \<and> gamePhase s'' = ''ended''
          \<and> winnerPlayer s'' = Some (filter isAlive (players s'') ! 0))"
proof -
  let ?t = "snd (processAttack lastStand 0 1 ''a'' (1 / 2) (1 / 2))"
  have ok: "success (fst (processAttack lastStand 0 1 ''a'' (1 / 2) (1 / 2)))"
    by code_simp
  have four: "length (players ?t) = 4"
    by code_simp
  have one: "length (filter isAlive (players ?t)) = 1"
    by code_simp
  have no: "\<not> success (fst (processAttack lastStand 1 0 ''a'' (1 / 2) (1 / 2)))"
    by code_simp
  have "\<not> isl (nextTurn lastStand 7)"
    by code_simp
  then obtain s'' where nt: "nextTurn lastStand 7 = Inr s''"
    by (cases "nextTurn lastStand 7") auto
  have "\<not> isl (nextTurn ?t 7)"
    by code_simp
  then obtain s3 where n3: "nextTurn ?t 7 = Inr s3"
    by (cases "nextTurn ?t 7") auto
  have one3: "length (filter isAlive (players (projr (nextTurn ?t 7)))) = 1"
    by code_simp
  then have o3: "length (filter isAlive (players s3)) = 1" using n3 by simp
  note a = win_check_after_accepted_attack [where s = lastStand and fromId = 0 and toId = 1
        and playerId = "''a''" and ?r1.0 = "1 / 2" and ?r2.0 = "1 / 2" and now = 7]
  note b = win_check_after_accepted_attack [where s = lastStand and fromId = 1 and toId = 0
        and playerId = "''a''" and ?r1.0 = "1 / 2" and ?r2.0 = "1 / 2" and now = 7]
  note c = win_check_after_accepted_attack [where s = ?t and fromId = 1 and toId = 0
        and playerId = "''a''" and ?r1.0 = "1 / 2" and ?r2.0 = "1 / 2" and now = 7]
  note a1 = a [THEN conjunct1, rule_format, OF ok, unfolded Let_def]
  have w: "winConditionHolds ?t" using a1 by blast
  have p1: "gamePhase ?t = ''ended''"
    "winnerPlayer ?t = Some (filter isAlive (players ?t) ! 0)"
    using a1 one by blast+
  have p2: "snd (processAttack lastStand 1 0 ''a'' (1 / 2) (1 / 2)) = lastStand"
    using b [THEN conjunct2, THEN conjunct1] no by blast
  have p3: "gamePhase s'' = gamePhase lastStand"
    using a [THEN conjunct2, THEN conjunct2, THEN conjunct1, rule_format, OF nt] by blast
  note c1 = c [THEN conjunct2, THEN conjunct2, THEN conjunct1, rule_format, OF n3,
      unfolded Let_def]
  have p4: "winConditionHolds s3" "gamePhase s3 = ''ended''"
    "winnerPlayer s3 = Some (filter isAlive (players s3) ! 0)"
    using c1 w o3 by blast+
  show ?thesis
    using ok four one no nt n3 o3 w p1 p2 p3 p4 by blast
qed

subsection \<open>The decision of the bot\<close>

lemma someNotOwned_ok:
  "list_all (\<lambda>n. 0 \<le> n \<and> n < int (length ts)) ns \<Longrightarrow> \<exists>b. someNotOwned ts p ns = Inr b"
  by (induction ns) (auto simp: territory_at_def)

lemma countOwned_ok:
  "list_all (\<lambda>n. 0 \<le> n \<and> n < int (length ts)) ns \<Longrightarrow> \<exists>k. countOwned ts p ns = Inr k"
  by (induction ns) (auto simp: territory_at_def)

lemma evaluateAttack_ok:
  assumes "list_all (\<lambda>n. 0 \<le> n \<and> n < int (length (territories s))) (neighbors from)"
    and "list_all (\<lambda>n. 0 \<le> n \<and> n < int (length (territories s))) (neighbors to)"
  shows "\<exists>sc. evaluateAttack d from to s p = Inr sc"
proof -
  obtain b where b: "someNotOwned (territories s) p (neighbors from) = Inr b"
    using someNotOwned_ok [OF assms(1)] by blast
  obtain k where k: "countOwned (territories s) p (neighbors to) = Inr k"
    using countOwned_ok [OF assms(2)] by blast
  show ?thesis by (simp add: evaluateAttack_def Let_def b k)
qed

lemma attacksFrom_ok:
  assumes "neighborsValid s"
    and "list_all (\<lambda>n. 0 \<le> n \<and> n < int (length (territories s))) (neighbors t)"
    and "list_all (\<lambda>n. 0 \<le> n \<and> n < int (length (territories s))) ns"
  shows "\<exists>as. attacksFrom d s p t ns = Inr as
           \<and> map (\<lambda>a. (a_fromId a, a_toId a)) as
               = concat (map (\<lambda>n. case territory_at (territories s) n of
                                     None \<Rightarrow> []
                                   | Some nb \<Rightarrow> if owner nb = Some p then [] else [(tid t, tid nb)])
                             ns)"
  using assms(3)
proof (induction ns)
  case Nil
  then show ?case by simp
next
  case (Cons n ns)
  then have n: "0 \<le> n" "n < int (length (territories s))" by auto
  then have at: "territory_at (territories s) n = Some (territories s ! nat n)"
    by (simp add: territory_at_def)
  have "territories s ! nat n \<in> set (territories s)" using n by simp
  then have nv: "list_all (\<lambda>n. 0 \<le> n \<and> n < int (length (territories s)))
                   (neighbors (territories s ! nat n))"
    using assms(1) by (simp add: neighborsValid_def list_all_iff)
  obtain sc where sc: "evaluateAttack d t (territories s ! nat n) s p = Inr sc"
    using evaluateAttack_ok [OF assms(2) nv] by blast
  obtain as where as: "attacksFrom d s p t ns = Inr as"
    "map (\<lambda>a. (a_fromId a, a_toId a)) as
       = concat (map (\<lambda>n. case territory_at (territories s) n of
                             None \<Rightarrow> []
                           | Some nb \<Rightarrow> if owner nb = Some p then [] else [(tid t, tid nb)])
                     ns)"
    using Cons by auto
  show ?case by (simp add: at sc as)
qed

lemma possibleAttacks_ok:
  assumes "neighborsValid s" and "set os \<subseteq> set (territories s)"
  shows "\<exists>as. possibleAttacks d s p os = Inr as
           \<and> map (\<lambda>a. (a_fromId a, a_toId a)) as
               = concat (map (\<lambda>t. if 1 < troops t
                       then concat (map (\<lambda>n. case territory_at (territories s) n of
                                                 None \<Rightarrow> []
                                               | Some nb \<Rightarrow>
                                                   if owner nb = Some p then []
                                                   else [(tid t, tid nb)])
                                        (neighbors t))
                       else []) os)"
  using assms(2)
proof (induction os)
  case Nil
  then show ?case by simp
next
  case (Cons t os)
  have nv: "list_all (\<lambda>n. 0 \<le> n \<and> n < int (length (territories s))) (neighbors t)"
    using assms(1) Cons.prems by (auto simp: neighborsValid_def list_all_iff)
  obtain here where here: "attacksFrom d s p t (neighbors t) = Inr here"
    "map (\<lambda>a. (a_fromId a, a_toId a)) here
       = concat (map (\<lambda>n. case territory_at (territories s) n of
                             None \<Rightarrow> []
                           | Some nb \<Rightarrow> if owner nb = Some p then [] else [(tid t, tid nb)])
                     (neighbors t))"
    using attacksFrom_ok [OF assms(1) nv nv] by blast
  obtain others where others: "possibleAttacks d s p os = Inr others"
    "map (\<lambda>a. (a_fromId a, a_toId a)) others
               = concat (map (\<lambda>t. if 1 < troops t
                       then concat (map (\<lambda>n. case territory_at (territories s) n of
                                                 None \<Rightarrow> []
                                               | Some nb \<Rightarrow>
                                                   if owner nb = Some p then []
                                                   else [(tid t, tid nb)])
                                        (neighbors t))
                       else []) os)"
    using Cons by auto
  show ?case
    by (cases "troops t \<le> 1") (simp_all add: here others)
qed

lemma possibleAttacks_legal:
  assumes "neighborsValid s"
  shows "\<exists>as. possibleAttacks d s p (filter (\<lambda>t. owner t = Some p) (territories s)) = Inr as
           \<and> map (\<lambda>a. (a_fromId a, a_toId a)) as = legalAttacks s p"
  unfolding legalAttacks_def
  by (rule possibleAttacks_ok [OF assms]) auto

lemma js_mul_one:
  assumes "fl r = r"
  shows "js_mul r 1 = r"
  using assms by (simp add: js_mul_def)

text \<open>
  Claim C9. In a state whose neighbor ids all name territories, for a draw \<open>r\<close> of
  \<open>Math.random()\<close> (a binary64 number in \<open>[0, 1)\<close>): if the player has exactly one legal attack,
  \<open>makeDecision\<close> with difficulty \<open>easy\<close> returns that attack; if the player has no legal
  attack, or owns no territory, \<open>makeDecision\<close> returns \<open>null\<close> at every difficulty.
\<close>

theorem makeDecision_easy_single_or_none:
  assumes "neighborsValid s" and "0 \<le> r" and "r < 1" and "fl r = r"
  shows "(legalAttacks s playerId = [(f, t)] \<longrightarrow>
            (\<exists>sc. makeDecision ''easy'' s playerId r
                     = Inr (Attack \<lparr>a_fromId = f, a_toId = t, score = sc\<rparr>)))
       \<and> (legalAttacks s playerId = [] \<longrightarrow> makeDecision difficulty s playerId r = Inr Null)
       \<and> (filter (\<lambda>t. owner t = Some playerId) (territories s) = [] \<longrightarrow>
            makeDecision difficulty s playerId r = Inr Null)"
proof (intro conjI impI)
  assume "filter (\<lambda>t. owner t = Some playerId) (territories s) = []"
  then show "makeDecision difficulty s playerId r = Inr Null"
    by (simp add: makeDecision_def)
next
  assume none: "legalAttacks s playerId = []"
  obtain as where as:
    "possibleAttacks difficulty s playerId (filter (\<lambda>t. owner t = Some playerId) (territories s))
       = Inr as"
    "map (\<lambda>a. (a_fromId a, a_toId a)) as = legalAttacks s playerId"
    using possibleAttacks_legal [OF assms(1)] by blast
  then have "as = []" using none by simp
  then show "makeDecision difficulty s playerId r = Inr Null"
    using as(1) by (simp add: makeDecision_def Let_def)
next
  assume one: "legalAttacks s playerId = [(f, t)]"
  obtain as where as:
    "possibleAttacks ''easy'' s playerId (filter (\<lambda>t. owner t = Some playerId) (territories s))
       = Inr as"
    "map (\<lambda>a. (a_fromId a, a_toId a)) as = legalAttacks s playerId"
    using possibleAttacks_legal [OF assms(1)] by blast
  then obtain a where a: "as = [a]" "a_fromId a = f" "a_toId a = t"
    using one by auto
  have owned: "filter (\<lambda>t. owner t = Some playerId) (territories s) \<noteq> []"
    using one by (auto simp: legalAttacks_def)
  have idx: "\<lfloor>r\<rfloor> = 0"
    using assms(2,3) by (simp add: floor_eq_iff)
  have "makeDecision ''easy'' s playerId r = Inr (Attack a)"
    using as(1) a(1) owned assms(2,3)
    by (simp add: makeDecision_def Let_def element_def js_mul_one [OF assms(4)] idx)
  moreover have "a = \<lparr>a_fromId = f, a_toId = t, score = score a\<rparr>"
    using a(2,3) by simp
  ultimately show "\<exists>sc. makeDecision ''easy'' s playerId r
                     = Inr (Attack \<lparr>a_fromId = f, a_toId = t, score = sc\<rparr>)"
    by metis
qed

theorem makeDecision_easy_single_or_none_witness:
  "neighborsValid duel \<and> (0 :: rat) \<le> 1 / 2 \<and> (1 / 2 :: rat) < 1 \<and> fl (1 / 2) = 1 / 2
   \<and> legalAttacks duel ''a'' = [(0, 1)]
   \<and> (\<exists>sc. makeDecision ''easy'' duel ''a'' (1 / 2)
             = Inr (Attack \<lparr>a_fromId = 0, a_toId = 1, score = sc\<rparr>))
   \<and> neighborsValid soleOwner
   \<and> legalAttacks soleOwner ''a'' = []
   \<and> makeDecision ''hard'' soleOwner ''a'' (1 / 2) = Inr Null
   \<and> filter (\<lambda>t. owner t = Some ''c'') (territories duel) = []
   \<and> makeDecision ''medium'' duel ''c'' (1 / 2) = Inr Null"
proof -
  have v1: "neighborsValid duel" by code_simp
  have v2: "neighborsValid soleOwner" by code_simp
  have r: "(0 :: rat) \<le> 1 / 2" "(1 / 2 :: rat) < 1" by simp_all
  have d: "fl (1 / 2) = 1 / 2" by code_simp
  have l1: "legalAttacks duel ''a'' = [(0, 1)]" by code_simp
  have l2: "legalAttacks soleOwner ''a'' = []" by code_simp
  have l3: "filter (\<lambda>t. owner t = Some ''c'') (territories duel) = []" by code_simp
  show ?thesis
    using makeDecision_easy_single_or_none [OF v1 r d, where playerId = "''a''" and f = 0 and t = 1]
      makeDecision_easy_single_or_none [OF v2 r d, where playerId = "''a''" and difficulty = "''hard''"]
      makeDecision_easy_single_or_none [OF v1 r d, where playerId = "''c''" and difficulty = "''medium''"]
      v1 v2 r d l1 l2 l3
    by blast
qed

end
